theory Spec2Isabelle
  imports Main "HOL-Library.Word"
begin

section \<open>Errors and bytes\<close>

text \<open>
  Every exception the modelled Python raises is a value of \<open>error\<close>; a function that can
  raise returns \<open>error + 'a\<close> with \<open>Inl\<close> for the exception.  \<open>EOFError\<close> stands for the
  short read of the byte buffer (the source catches it as \<open>EOFError\<close> or \<open>IOError\<close>),
  \<open>DecodeError\<close> is the class of rtmpy/rtmp/event.py and \<open>CodecDecodeError\<close> the class
  of the same name of rtmpy/rtmp/codec; \<open>AMFError\<close> is whatever the external AMF codec
  raises, \<open>CallbackError\<close> an exception raised inside a subscriber's callback and
  \<open>HookError\<close> one raised inside an application hook.
\<close>

datatype error =
    EOFError | TypeError | EncodeError | DecodeError | TrailingDataError
  | UnknownEventType | CodecDecodeError | RuntimeError | KeyError | ValueError | AMFError
  | NameError | AttributeError | CallbackError | HookError

type_synonym byte = "8 word"

primrec ebind :: "error + 'a \<Rightarrow> ('a \<Rightarrow> error + 'b) \<Rightarrow> error + 'b" where
  "ebind (Inl e) f = Inl e"
| "ebind (Inr x) f = f x"

section \<open>The byte buffer (rtmpy.util.BufferedByteStream)\<close>

text \<open>
  Modelled from the spec: the class \<open>BufferedByteStream\<close>, which every source file uses
  and none defines.  It is the byte buffer of sections 3 and 4.A, an ordered sequence of
  bytes with a read cursor; \<open>read n\<close> fails with a short read and leaves the cursor where
  it was when fewer than \<open>n\<close> bytes remain; \<open>consume\<close> drops the bytes before the cursor
  and rebases the cursor to 0; numeric fields are big-endian (section 6).  \<open>len\<close> is the
  total number of bytes held, \<open>remaining\<close> the number of bytes after the cursor.
\<close>

record BufferedByteStream =
  buf_data :: "byte list"
  buf_pos :: nat

definition new_buffer :: "byte list \<Rightarrow> BufferedByteStream" where
  "new_buffer bs = \<lparr>buf_data = bs, buf_pos = 0\<rparr>"

definition len :: "BufferedByteStream \<Rightarrow> nat" where
  "len b = length (buf_data b)"

definition tell :: "BufferedByteStream \<Rightarrow> nat" where
  "tell b = buf_pos b"

definition seek :: "nat \<Rightarrow> BufferedByteStream \<Rightarrow> BufferedByteStream" where
  "seek p b = b\<lparr>buf_pos := p\<rparr>"

definition seek_end :: "BufferedByteStream \<Rightarrow> BufferedByteStream" where
  "seek_end b = b\<lparr>buf_pos := length (buf_data b)\<rparr>"

definition remaining :: "BufferedByteStream \<Rightarrow> nat" where
  "remaining b = length (buf_data b) - buf_pos b"

definition at_eof :: "BufferedByteStream \<Rightarrow> bool" where
  "at_eof b = (length (buf_data b) \<le> buf_pos b)"

definition read :: "nat \<Rightarrow> BufferedByteStream \<Rightarrow> error + (byte list \<times> BufferedByteStream)" where
  "read n b =
     (if buf_pos b + n \<le> length (buf_data b)
      then Inr (take n (drop (buf_pos b) (buf_data b)), b\<lparr>buf_pos := buf_pos b + n\<rparr>)
      else Inl EOFError)"

definition read_all :: "BufferedByteStream \<Rightarrow> byte list \<times> BufferedByteStream" where
  \<comment> \<open>\<open>buf.read()\<close> without a length: everything after the cursor\<close>
  "read_all b =
     (drop (buf_pos b) (buf_data b), b\<lparr>buf_pos := max (buf_pos b) (length (buf_data b))\<rparr>)"

definition write_bytes :: "byte list \<Rightarrow> BufferedByteStream \<Rightarrow> BufferedByteStream" where
  \<comment> \<open>writes at the cursor, over what is there, and moves the cursor behind it\<close>
  "write_bytes bs b =
     \<lparr>buf_data = take (buf_pos b) (buf_data b)
          @ replicate (buf_pos b - length (buf_data b)) 0
          @ bs @ drop (buf_pos b + length bs) (buf_data b),
      buf_pos = buf_pos b + length bs\<rparr>"

definition append_bytes :: "byte list \<Rightarrow> BufferedByteStream \<Rightarrow> BufferedByteStream" where
  \<comment> \<open>\<open>buf.append(data)\<close>: adds at the tail, the cursor stays\<close>
  "append_bytes bs b = b\<lparr>buf_data := buf_data b @ bs\<rparr>"

definition consume :: "BufferedByteStream \<Rightarrow> BufferedByteStream" where
  "consume b = \<lparr>buf_data = drop (buf_pos b) (buf_data b), buf_pos = 0\<rparr>"

definition getvalue :: "BufferedByteStream \<Rightarrow> byte list" where
  "getvalue b = buf_data b"

definition truncate0 :: "BufferedByteStream \<Rightarrow> BufferedByteStream" where
  \<comment> \<open>\<open>buf.truncate(0)\<close>\<close>
  "truncate0 b = \<lparr>buf_data = [], buf_pos = 0\<rparr>"

subsection \<open>Big-endian integers\<close>

primrec be_bytes :: "nat \<Rightarrow> int \<Rightarrow> byte list" where
  "be_bytes 0 v = []"
| "be_bytes (Suc k) v = be_bytes k (v div 256) @ [word_of_int v]"

definition be_int :: "byte list \<Rightarrow> int" where
  "be_int bs = foldl (\<lambda>a b. a * 256 + uint b) 0 bs"

definition to_signed :: "nat \<Rightarrow> int \<Rightarrow> int" where
  \<comment> \<open>two's complement reading of a \<open>k\<close>-byte unsigned value\<close>
  "to_signed k u = (if 2 ^ (8 * k - 1) \<le> u then u - 2 ^ (8 * k) else u)"

definition write_uint :: "nat \<Rightarrow> int \<Rightarrow> BufferedByteStream \<Rightarrow> error + BufferedByteStream" where
  "write_uint k v b =
     (if 0 \<le> v \<and> v < 2 ^ (8 * k) then Inr (write_bytes (be_bytes k v) b) else Inl TypeError)"

definition write_sint :: "nat \<Rightarrow> int \<Rightarrow> BufferedByteStream \<Rightarrow> error + BufferedByteStream" where
  "write_sint k v b =
     (if - (2 ^ (8 * k - 1)) \<le> v \<and> v < 2 ^ (8 * k - 1)
      then Inr (write_bytes (be_bytes k v) b) else Inl TypeError)"

definition read_uint :: "nat \<Rightarrow> BufferedByteStream \<Rightarrow> error + (int \<times> BufferedByteStream)" where
  "read_uint k b = ebind (read k b) (\<lambda>(bs, b'). Inr (be_int bs, b'))"

definition read_sint :: "nat \<Rightarrow> BufferedByteStream \<Rightarrow> error + (int \<times> BufferedByteStream)" where
  "read_sint k b = ebind (read k b) (\<lambda>(bs, b'). Inr (to_signed k (be_int bs), b'))"

text \<open>
  Modelled from the spec: the typed accessors of the buffer, named as the source calls
  them.  Section 4.H gives the widths: \<open>u32\<close> for \<open>ulong\<close>, \<open>u8\<close> for \<open>uchar\<close>, \<open>u16\<close>
  for the control subtype (\<open>short\<close>) and \<open>i32\<close> for the control values (\<open>long\<close>).  A value
  outside the field's domain is refused with \<open>TypeError\<close>, the one exception the event
  encoders turn into \<open>EncodeError\<close> (section 7 files a wrong domain under \<open>EncodeError\<close>).
\<close>

definition write_ulong :: "int \<Rightarrow> BufferedByteStream \<Rightarrow> error + BufferedByteStream" where
  "write_ulong = write_uint 4"

definition read_ulong :: "BufferedByteStream \<Rightarrow> error + (int \<times> BufferedByteStream)" where
  "read_ulong = read_uint 4"

definition write_uchar :: "int \<Rightarrow> BufferedByteStream \<Rightarrow> error + BufferedByteStream" where
  "write_uchar = write_uint 1"

definition read_uchar :: "BufferedByteStream \<Rightarrow> error + (int \<times> BufferedByteStream)" where
  "read_uchar = read_uint 1"

definition write_short :: "int \<Rightarrow> BufferedByteStream \<Rightarrow> error + BufferedByteStream" where
  "write_short = write_uint 2"

definition read_short :: "BufferedByteStream \<Rightarrow> error + (int \<times> BufferedByteStream)" where
  "read_short = read_uint 2"

definition write_long :: "int \<Rightarrow> BufferedByteStream \<Rightarrow> error + BufferedByteStream" where
  "write_long = write_sint 4"

definition read_long :: "BufferedByteStream \<Rightarrow> error + (int \<times> BufferedByteStream)" where
  "read_long = read_sint 4"

section \<open>Events and their codec (rtmpy/rtmp/event.py)\<close>

text \<open>
  The event classes.  A field the source tests against \<open>None\<close> is an \<open>option\<close>; the three
  values of a control event default to integers and are read and written as integers.
  The elements of a notification (\<open>name\<close>, \<open>id\<close> and \<open>argv\<close>) are values of the external
  AMF codec, of a type \<open>'v\<close> the codec chooses.
\<close>

datatype 'v event =
    FrameSize "int option"
  | BytesRead "int option"
  | ControlEvent "int option" int int int
  | DownstreamBandwidth "int option"
  | UpstreamBandwidth "int option" "int option"
  | Notify 'v 'v "'v list"
  | Invoke 'v 'v "'v list"
  | AudioData "byte list option"
  | VideoData "byte list option"

datatype event_class =
    FrameSizeC | BytesReadC | ControlEventC | DownstreamBandwidthC | UpstreamBandwidthC
  | NotifyC | InvokeC | AudioDataC | VideoDataC

fun class_of :: "'v event \<Rightarrow> event_class" where
  "class_of (FrameSize _) = FrameSizeC"
| "class_of (BytesRead _) = BytesReadC"
| "class_of (ControlEvent _ _ _ _) = ControlEventC"
| "class_of (DownstreamBandwidth _) = DownstreamBandwidthC"
| "class_of (UpstreamBandwidth _ _) = UpstreamBandwidthC"
| "class_of (Notify _ _ _) = NotifyC"
| "class_of (Invoke _ _ _) = InvokeC"
| "class_of (AudioData _) = AudioDataC"
| "class_of (VideoData _) = VideoDataC"

definition FRAME_SIZE :: int where "FRAME_SIZE = 0x01"
definition BYTES_READ :: int where "BYTES_READ = 0x03"
definition CONTROL :: int where "CONTROL = 0x04"
definition DOWNSTREAM_BANDWIDTH :: int where "DOWNSTREAM_BANDWIDTH = 0x05"
definition UPSTREAM_BANDWIDTH :: int where "UPSTREAM_BANDWIDTH = 0x06"
definition AUDIO_DATA :: int where "AUDIO_DATA = 0x07"
definition VIDEO_DATA :: int where "VIDEO_DATA = 0x08"
definition NOTIFY :: int where "NOTIFY = 0x12"
definition INVOKE :: int where "INVOKE = 0x14"

definition TYPE_MAP :: "(int \<times> event_class) list" where
  "TYPE_MAP =
     [(FRAME_SIZE, FrameSizeC), (BYTES_READ, BytesReadC), (CONTROL, ControlEventC),
      (DOWNSTREAM_BANDWIDTH, DownstreamBandwidthC), (UPSTREAM_BANDWIDTH, UpstreamBandwidthC),
      (NOTIFY, NotifyC), (INVOKE, InvokeC), (AUDIO_DATA, AudioDataC),
      (VIDEO_DATA, VideoDataC)]"

definition get_type_class :: "int \<Rightarrow> error + event_class" where
  "get_type_class datatype =
     (case map_of TYPE_MAP datatype of None \<Rightarrow> Inl UnknownEventType | Some c \<Rightarrow> Inr c)"

text \<open>
  \<open>try: buf.write_x(v) except TypeError: raise EncodeError\<close>, the pattern of every
  event encoder.
\<close>

definition type_error_as_encode_error :: "error + 'a \<Rightarrow> error + 'a" where
  "type_error_as_encode_error r =
     (case r of Inl e \<Rightarrow> (if e = TypeError then Inl EncodeError else Inl e) | Inr x \<Rightarrow> Inr x)"

text \<open>
  The external AMF codec (pyamf) is a pair of functions: \<open>writeElement\<close> gives the bytes
  of one element or raises, \<open>readElement\<close> reads one element at the cursor of the buffer
  and moves the cursor, or raises.
\<close>

type_synonym 'v amf_writer = "'v \<Rightarrow> error + byte list"
type_synonym 'v amf_reader = "BufferedByteStream \<Rightarrow> error + ('v \<times> BufferedByteStream)"

fun write_elements :: "'v amf_writer \<Rightarrow> 'v list \<Rightarrow> BufferedByteStream \<Rightarrow> error + BufferedByteStream" where
  "write_elements wr [] buf = Inr buf"
| "write_elements wr (e # es) buf =
     (case wr e of Inl err \<Rightarrow> Inl err
      | Inr bs \<Rightarrow> write_elements wr es (write_bytes bs buf))"

text \<open>
  \<open>while not buf.at_eof(): self.argv.append(decoder.readElement())\<close>.  The loop ends only
  when the reader reaches the end of the body, so it is a partial function: \<open>None\<close> is
  the loop that never returns.
\<close>

partial_function (option) read_elements ::
  "'v amf_reader \<Rightarrow> BufferedByteStream \<Rightarrow> 'v list \<Rightarrow> (error + ('v list \<times> BufferedByteStream)) option" where
  "read_elements rd buf argv =
     (if at_eof buf then Some (Inr (argv, buf))
      else (case rd buf of
              Inl err \<Rightarrow> Some (Inl err)
            | Inr (v, buf') \<Rightarrow> read_elements rd buf' (argv @ [v])))"

declare read_elements.simps [code]

fun encode_event :: "'v amf_writer \<Rightarrow> 'v event \<Rightarrow> BufferedByteStream \<Rightarrow> error + BufferedByteStream" where
  "encode_event wr (FrameSize fsize) buf =
     (case fsize of None \<Rightarrow> Inl EncodeError
      | Some v \<Rightarrow> type_error_as_encode_error (write_ulong v buf))"
| "encode_event wr (BytesRead nbytes) buf =
     (case nbytes of None \<Rightarrow> Inl EncodeError
      | Some v \<Rightarrow> type_error_as_encode_error (write_ulong v buf))"
| "encode_event wr (ControlEvent etype value1 value2 value3) buf =
     (case etype of None \<Rightarrow> Inl EncodeError
      | Some t \<Rightarrow>
          ebind (type_error_as_encode_error (write_short t buf)) (\<lambda>b1.
          ebind (type_error_as_encode_error (write_long value1 b1)) (\<lambda>b2.
          ebind (type_error_as_encode_error (write_long value2 b2)) (\<lambda>b3.
          type_error_as_encode_error (write_long value3 b3)))))"
| "encode_event wr (DownstreamBandwidth bandwidth) buf =
     (case bandwidth of None \<Rightarrow> Inl EncodeError
      | Some v \<Rightarrow> type_error_as_encode_error (write_ulong v buf))"
| "encode_event wr (UpstreamBandwidth bandwidth extra) buf =
     (case bandwidth of None \<Rightarrow> Inl EncodeError
      | Some v \<Rightarrow>
          (case extra of None \<Rightarrow> Inl EncodeError
           | Some x \<Rightarrow>
               ebind (type_error_as_encode_error (write_ulong v buf)) (\<lambda>b1.
               type_error_as_encode_error (write_uchar x b1))))"
| "encode_event wr (Notify name ident argv) buf =
     ebind (write_elements wr [name, ident] buf) (write_elements wr argv)"
| "encode_event wr (Invoke name ident argv) buf =
     ebind (write_elements wr [name, ident] buf) (write_elements wr argv)"
| "encode_event wr (AudioData d) buf =
     (case d of None \<Rightarrow> Inl EncodeError | Some bs \<Rightarrow> Inr (write_bytes bs buf))"
| "encode_event wr (VideoData d) buf =
     (case d of None \<Rightarrow> Inl EncodeError | Some bs \<Rightarrow> Inr (write_bytes bs buf))"

definition decode_notify ::
  "'v amf_reader \<Rightarrow> ('v \<Rightarrow> 'v \<Rightarrow> 'v list \<Rightarrow> 'v event) \<Rightarrow> BufferedByteStream
     \<Rightarrow> (error + ('v event \<times> BufferedByteStream)) option" where
  "decode_notify rd mk buf =
     (case rd buf of
        Inl err \<Rightarrow> Some (Inl err)
      | Inr (name, b1) \<Rightarrow>
          (case rd b1 of
             Inl err \<Rightarrow> Some (Inl err)
           | Inr (ident, b2) \<Rightarrow>
               (case read_elements rd b2 [] of
                  None \<Rightarrow> None
                | Some (Inl err) \<Rightarrow> Some (Inl err)
                | Some (Inr (argv, b3)) \<Rightarrow> Some (Inr (mk name ident argv, b3)))))"

fun decode_event ::
  "'v amf_reader \<Rightarrow> event_class \<Rightarrow> BufferedByteStream
     \<Rightarrow> (error + ('v event \<times> BufferedByteStream)) option" where
  "decode_event rd FrameSizeC buf =
     Some (ebind (read_ulong buf) (\<lambda>(v, b). Inr (FrameSize (Some v), b)))"
| "decode_event rd BytesReadC buf =
     Some (ebind (read_ulong buf) (\<lambda>(v, b). Inr (BytesRead (Some v), b)))"
| "decode_event rd ControlEventC buf =
     Some (ebind (read_short buf) (\<lambda>(t, b1).
           ebind (read_long b1) (\<lambda>(v1, b2).
           ebind (read_long b2) (\<lambda>(v2, b3).
           ebind (read_long b3) (\<lambda>(v3, b4).
           Inr (ControlEvent (Some t) v1 v2 v3, b4))))))"
| "decode_event rd DownstreamBandwidthC buf =
     Some (ebind (read_ulong buf) (\<lambda>(v, b). Inr (DownstreamBandwidth (Some v), b)))"
| "decode_event rd UpstreamBandwidthC buf =
     Some (ebind (read_ulong buf) (\<lambda>(v, b1).
           ebind (read_uchar b1) (\<lambda>(x, b2).
           Inr (UpstreamBandwidth (Some v) (Some x), b2))))"
| "decode_event rd NotifyC buf = decode_notify rd Notify buf"
| "decode_event rd InvokeC buf = decode_notify rd Invoke buf"
| "decode_event rd AudioDataC buf =
     Some (case read_all buf of (bs, b) \<Rightarrow> Inr (AudioData (Some bs), b))"
| "decode_event rd VideoDataC buf =
     Some (case read_all buf of (bs, b) \<Rightarrow> Inr (VideoData (Some bs), b))"

text \<open>
  \<open>decode(datatype, body)\<close>: a datatype outside \<open>TYPE_MAP\<close> raises \<open>DecodeError\<close> (the
  \<open>KeyError\<close> is caught and replaced); bytes left in the body after the event's own
  decoder raise \<open>TrailingDataError\<close>.
\<close>

definition decode :: "'v amf_reader \<Rightarrow> int \<Rightarrow> byte list \<Rightarrow> (error + 'v event) option" where
  "decode rd datatype body =
     (case map_of TYPE_MAP datatype of
        None \<Rightarrow> Some (Inl DecodeError)
      | Some kls \<Rightarrow>
          (case decode_event rd kls (new_buffer body) of
             None \<Rightarrow> None
           | Some (Inl err) \<Rightarrow> Some (Inl err)
           | Some (Inr (ev, buf)) \<Rightarrow>
               (if \<not> at_eof buf then Some (Inl TrailingDataError) else Some (Inr ev))))"

text \<open>
  \<open>encode(event)\<close>: the datatype is the key of \<open>TYPE_MAP\<close> whose class is the event's;
  the body is what the event writes into a fresh buffer.
\<close>

definition encode :: "'v amf_writer \<Rightarrow> 'v event \<Rightarrow> error + (int \<times> byte list)" where
  "encode wr ev =
     (case find (\<lambda>(t, c). c = class_of ev) TYPE_MAP of
        None \<Rightarrow> Inl UnknownEventType
      | Some (datatype, c) \<Rightarrow>
          ebind (encode_event wr ev (new_buffer [])) (\<lambda>body. Inr (datatype, getvalue body)))"

section \<open>The client handshake (rtmpy/client.py)\<close>

text \<open>
  Modelled from the spec: the module \<open>rtmpy.rtmp\<close> (\<open>HEADER_BYTE\<close>, \<open>HANDSHAKE_LENGTH\<close>,
  the event names and the base protocol), which is not among the sources.  Section 4.G
  gives the version byte \<open>0x03\<close> and the payload length 1536; \<open>dispatch\<close> hands an event
  to the protocol's observers, recorded here in \<open>cl_dispatched\<close>; \<open>_consumeBuffer\<close> drops
  the bytes already read, as \<open>consume\<close> does; \<open>transport.write\<close> is recorded in
  \<open>cl_written\<close>, \<open>transport.loseConnection\<close> in \<open>cl_lost\<close>.
\<close>

definition HEADER_BYTE :: "byte list" where
  "HEADER_BYTE = [0x03]"

definition HANDSHAKE_LENGTH :: nat where
  "HANDSHAKE_LENGTH = 1536"

datatype protocol_state = HANDSHAKE | STREAM | CLOSED

datatype protocol_event = HANDSHAKE_FAILURE string | HANDSHAKE_SUCCESS

record RTMPClientProtocol =
  cl_buffer :: BufferedByteStream
  cl_state :: protocol_state
  cl_my_handshake :: "byte list"
  cl_received_handshake :: "byte list option"
  cl_written :: "byte list list"
  cl_dispatched :: "protocol_event list"
  cl_lost :: bool

definition dispatch :: "protocol_event \<Rightarrow> RTMPClientProtocol \<Rightarrow> RTMPClientProtocol" where
  "dispatch ev s = s\<lparr>cl_dispatched := cl_dispatched s @ [ev]\<rparr>"

definition transport_write :: "byte list \<Rightarrow> RTMPClientProtocol \<Rightarrow> RTMPClientProtocol" where
  "transport_write bs s = s\<lparr>cl_written := cl_written s @ [bs]\<rparr>"

definition decodeHandshake :: "RTMPClientProtocol \<Rightarrow> error + RTMPClientProtocol" where
  "decodeHandshake s =
     (if len (cl_buffer s) < 1 then Inr s
      else ebind (read 1 (cl_buffer s)) (\<lambda>(hb, b1).
        if hb \<noteq> HEADER_BYTE
        then Inr (dispatch (HANDSHAKE_FAILURE ''Invalid header byte received'')
                    (s\<lparr>cl_buffer := b1\<rparr>))
        else if len b1 < HANDSHAKE_LENGTH * 2 + 1 then Inr (s\<lparr>cl_buffer := b1\<rparr>)
        else ebind (read HANDSHAKE_LENGTH b1) (\<lambda>(received, b2).
             ebind (read HANDSHAKE_LENGTH b2) (\<lambda>(echo, b3).
               if echo \<noteq> cl_my_handshake s
               then Inr (dispatch (HANDSHAKE_FAILURE ''Handshake mismatch'')
                           (s\<lparr>cl_buffer := b3, cl_received_handshake := Some received\<rparr>))
               else Inr (dispatch HANDSHAKE_SUCCESS
                          (transport_write received
                            (s\<lparr>cl_buffer := consume b3,
                               cl_received_handshake := Some received\<rparr>)))))))"

text \<open>
  \<open>dataReceived\<close> appends the new bytes, rewinds the cursor and, in the handshake state,
  runs \<open>decodeHandshake\<close>.  In the stream state it delegates to the base protocol, which
  is not among the sources and is the parameter \<open>base\<close>.
\<close>

definition dataReceived ::
  "(byte list \<Rightarrow> RTMPClientProtocol \<Rightarrow> error + RTMPClientProtocol)
     \<Rightarrow> byte list \<Rightarrow> RTMPClientProtocol \<Rightarrow> error + RTMPClientProtocol" where
  "dataReceived base bs s =
     (let s1 = s\<lparr>cl_buffer := seek 0 (write_bytes bs (seek_end (cl_buffer s)))\<rparr>
      in if cl_state s1 = HANDSHAKE then decodeHandshake s1
         else if cl_state s1 = STREAM then base bs s1
         else Inr (s1\<lparr>cl_lost := True\<rparr>))"

section \<open>The frame decoder (rtmpy/rtmp/codec)\<close>

text \<open>
  Modelled from the spec: the channel class, which is not among the sources.  It is the
  channel assembly state of section 3 with \<open>write\<close> of section 4.C: the bytes are
  appended to the body, \<open>frames\<close> counts the complete chunks assembled (\<open>frameSize\<close> bytes each, or the
  rest of the body when that is shorter), and when \<open>bodyRemaining\<close> reaches 0 the
  completed body is handed to the consumer and the body buffer is reset.  The header
  class is absent too; \<open>header\<close> has the fields of the absolute chunk header of section 3.
\<close>

record header =
  h_channelId :: nat
  h_timestamp :: int
  h_bodyLength :: int
  h_datatype :: int
  h_streamId :: int

record Channel =
  channel_header :: header
  bodyRemaining :: int
  frames :: nat
  bodyBuffer :: "byte list"
  completed :: "byte list list"

definition complete_frames :: "int \<Rightarrow> nat \<Rightarrow> int \<Rightarrow> nat" where
  "complete_frames frameSize received left =
     (if frameSize \<le> 0 then 0
      else nat (int received div frameSize)
           + (if left = 0 \<and> int received mod frameSize \<noteq> 0 then 1 else 0))"

definition channel_write :: "int \<Rightarrow> byte list \<Rightarrow> Channel \<Rightarrow> Channel" where
  "channel_write frameSize bs c =
     (let body = bodyBuffer c @ bs;
          left = bodyRemaining c - int (length bs);
          assembled = complete_frames frameSize (length body) left
                      - complete_frames frameSize (length (bodyBuffer c)) (bodyRemaining c);
          c' = c\<lparr>bodyRemaining := left, frames := frames c + assembled\<rparr>
      in if left = 0
         then c'\<lparr>bodyBuffer := [], completed := completed c @ [body]\<rparr>
         else c'\<lparr>bodyBuffer := body\<rparr>)"

text \<open>
  The decoder: its byte buffer, the pinned channel (\<open>currentChannel\<close>, a reference into
  the manager's channel table, here the channel's id), the manager's table and the
  manager's \<open>frameSize\<close>.
\<close>

record Decoder =
  dec_buffer :: BufferedByteStream
  currentChannel :: "nat option"
  dec_channels :: "nat \<Rightarrow> Channel"
  dec_frameSize :: int

definition getBytesAvailableForChannel :: "Decoder \<Rightarrow> Channel \<Rightarrow> int" where
  "getBytesAvailableForChannel d channel =
     min (int (remaining (dec_buffer d))) (min (bodyRemaining channel) (dec_frameSize d))"

definition readFrame :: "Decoder \<Rightarrow> error + Decoder" where
  "readFrame d =
     (case currentChannel d of
        None \<Rightarrow> Inl CodecDecodeError
      | Some cid \<Rightarrow>
          (let channel = dec_channels d cid;
               available = getBytesAvailableForChannel d channel;
               frames0 = frames channel
           in if available = 0 then Inr d
              else (case (if available < 0 then Inr (read_all (dec_buffer d))
                          else read (nat available) (dec_buffer d)) of
                      Inl err \<Rightarrow> Inl err
                    | Inr (bs, buf) \<Rightarrow>
                        (let channel' = channel_write (dec_frameSize d) bs channel;
                             d' = d\<lparr>dec_buffer := buf,
                                    dec_channels := (dec_channels d)(cid := channel')\<rparr>
                         in if frames channel' \<noteq> frames0 then Inr (d'\<lparr>currentChannel := None\<rparr>)
                            else if bodyRemaining channel' = 0
                            then Inr (d'\<lparr>currentChannel := None\<rparr>)
                            else Inr d'))))"

definition decoder_dataReceived :: "byte list \<Rightarrow> Decoder \<Rightarrow> Decoder" where
  \<comment> \<open>\<open>Decoder.dataReceived\<close>: seek to the end and write\<close>
  "decoder_dataReceived bs d = d\<lparr>dec_buffer := write_bytes bs (seek_end (dec_buffer d))\<rparr>"

text \<open>
  The bound the frame layout asks for when a channel is resumed inside a frame: what is
  left of the buffer, of the body and of the frame that is partly received.
\<close>

definition frame_boundary_bound :: "Decoder \<Rightarrow> Channel \<Rightarrow> int" where
  "frame_boundary_bound d channel =
     min (int (remaining (dec_buffer d)))
       (min (bodyRemaining channel)
            (dec_frameSize d - int (length (bodyBuffer channel)) mod dec_frameSize d))"

section \<open>The frame encoder (rtmpy/rtmp/codec)\<close>

text \<open>
  Modelled from the spec: the scheduler, an interface of the source with no
  implementation among the files.  It is the scheduler of section 4.E, a set of active
  channels served round-robin; the list holds the active channel ids in the order they
  will be served.
\<close>

definition sched_activateChannel :: "nat \<Rightarrow> nat list \<Rightarrow> nat list" where
  "sched_activateChannel c active = (if c \<in> set active then active else active @ [c])"

definition sched_deactivateChannel :: "nat \<Rightarrow> nat list \<Rightarrow> nat list" where
  "sched_deactivateChannel c active = removeAll c active"

definition getNextChannel :: "nat list \<Rightarrow> nat option \<times> nat list" where
  "getNextChannel active = (case active of [] \<Rightarrow> (None, []) | c # cs \<Rightarrow> (Some c, cs @ [c]))"

record ChannelContext =
  ctx_channel :: nat
  ctx_buffer :: BufferedByteStream
  ctx_active :: bool
  ctx_header :: "header option"

text \<open>
  The encoder.  \<open>channelContext\<close> is the dictionary from channels to their contexts,
  \<open>currentContext\<close> a reference to one of its values (here its key), \<open>enc_consumer\<close> what
  the consumer has been given, \<open>enc_channels\<close> the manager's channels by id.
\<close>

record Encoder =
  enc_buffer :: BufferedByteStream
  channelContext :: "nat \<rightharpoonup> ChannelContext"
  currentContext :: "nat option"
  enc_consumer :: "byte list list"
  scheduler :: "nat list"
  enc_channels :: "nat \<Rightarrow> Channel"
  enc_frameSize :: int
  enc_running :: bool

definition pause :: "Encoder \<Rightarrow> Encoder" where
  "pause e = e\<lparr>enc_running := False\<rparr>"

definition activateChannel :: "nat \<Rightarrow> Encoder \<Rightarrow> error + Encoder" where
  "activateChannel channel e =
     (if channel \<notin> dom (channelContext e) then Inl RuntimeError
      else Inr (e\<lparr>scheduler := sched_activateChannel channel (scheduler e)\<rparr>))"

definition deactivateChannel :: "nat \<Rightarrow> Encoder \<Rightarrow> error + Encoder" where
  "deactivateChannel channel e =
     (if channel \<notin> dom (channelContext e) then Inl RuntimeError
      else Inr (e\<lparr>scheduler := sched_deactivateChannel channel (scheduler e)\<rparr>))"

definition getMinimumFrameSize :: "Encoder \<Rightarrow> Channel \<Rightarrow> error + int" where
  "getMinimumFrameSize e channel =
     (let available = min (bodyRemaining channel) (enc_frameSize e)
      in if available < 1 then Inl RuntimeError else Inr available)"

text \<open>\<open>ChannelContext.write\<close> and \<open>ChannelContext.getData\<close>, for the context stored under key \<open>k\<close>.\<close>

definition context_write :: "nat \<Rightarrow> byte list \<Rightarrow> Encoder \<Rightarrow> error + Encoder" where
  "context_write k bs e =
     (case channelContext e k of
        None \<Rightarrow> Inl KeyError
      | Some ctx \<Rightarrow>
          (let ctx1 = ctx\<lparr>ctx_buffer := append_bytes bs (ctx_buffer ctx)\<rparr>;
               e1 = e\<lparr>channelContext := (channelContext e)(k \<mapsto> ctx1)\<rparr>
           in if \<not> ctx_active ctx1
              then ebind (activateChannel (ctx_channel ctx1) e1) (\<lambda>e2.
                     Inr (e2\<lparr>channelContext := (channelContext e2)(k \<mapsto> ctx1\<lparr>ctx_active := True\<rparr>)\<rparr>))
              else Inr e1))"

definition getData :: "nat \<Rightarrow> nat \<Rightarrow> Encoder \<Rightarrow> error + (byte list option \<times> Encoder)" where
  "getData n k e =
     (case channelContext e k of
        None \<Rightarrow> Inl KeyError
      | Some ctx \<Rightarrow>
          (let pos = tell (ctx_buffer ctx);
               (chunk, buf) = (case read n (ctx_buffer ctx) of
                                Inl err \<Rightarrow> (None, seek pos (ctx_buffer ctx))
                              | Inr (bs, b) \<Rightarrow> (Some bs, b))
           in if len buf = 0 \<or> chunk = None
              then ebind (deactivateChannel (ctx_channel ctx) e) (\<lambda>e1.
                     Inr (chunk, e1\<lparr>channelContext :=
                            (channelContext e1)(k \<mapsto> ctx\<lparr>ctx_buffer := buf, ctx_active := False\<rparr>)\<rparr>))
              else Inr (chunk, e\<lparr>channelContext :=
                            (channelContext e)(k \<mapsto> ctx\<lparr>ctx_buffer := consume buf\<rparr>)\<rparr>)))"

text \<open>
  The header codec (\<open>header.diffHeaders\<close>, \<open>header.encodeHeader\<close>) is not among the
  sources; the encoder takes the two functions as parameters.
\<close>

definition getRelativeHeader ::
  "(header \<Rightarrow> header \<Rightarrow> header) \<Rightarrow> ChannelContext \<Rightarrow> Channel \<Rightarrow> header" where
  "getRelativeHeader diffHeaders ctx channel =
     (case ctx_header ctx of
        None \<Rightarrow> channel_header channel
      | Some h \<Rightarrow> diffHeaders h (channel_header channel))"

definition writeFrame ::
  "(header \<Rightarrow> header \<Rightarrow> header) \<Rightarrow> (header \<Rightarrow> byte list) \<Rightarrow> Encoder \<Rightarrow> error + Encoder" where
  "writeFrame diffHeaders encodeHeader e =
     (case currentContext e of
        None \<Rightarrow> Inr e
      | Some k \<Rightarrow>
          (case channelContext e k of
             None \<Rightarrow> Inl KeyError
           | Some ctx0 \<Rightarrow>
               (let channel = enc_channels e (ctx_channel ctx0)
                in ebind (getMinimumFrameSize e channel) (\<lambda>n.
                   ebind (getData (nat n) k e) (\<lambda>(chunk, e1).
                     (case chunk of
                        None \<Rightarrow> Inr e1
                      | Some bs \<Rightarrow>
                          (case channelContext e1 k of
                             None \<Rightarrow> Inl KeyError
                           | Some ctx \<Rightarrow>
                               (let relativeHeader = getRelativeHeader diffHeaders ctx channel;
                                    ctx1 = ctx\<lparr>ctx_header := Some (channel_header channel)\<rparr>
                                in Inr (e1\<lparr>channelContext := (channelContext e1)(k \<mapsto> ctx1),
                                          enc_buffer :=
                                            write_bytes bs
                                              (write_bytes (encodeHeader relativeHeader)
                                                 (enc_buffer e1))\<rparr>)))))))))"

definition encoder_encode ::
  "(header \<Rightarrow> header \<Rightarrow> header) \<Rightarrow> (header \<Rightarrow> byte list) \<Rightarrow> Encoder \<Rightarrow> error + Encoder" where
  \<comment> \<open>\<open>Encoder.encode\<close>, one tick of the encoder\<close>
  "encoder_encode diffHeaders encodeHeader e =
     (case getNextChannel (scheduler e) of
        (None, sch) \<Rightarrow> Inr (pause (e\<lparr>scheduler := sch\<rparr>))
      | (Some channel, sch) \<Rightarrow>
          (case channelContext e channel of
             None \<Rightarrow> Inl KeyError
           | Some _ \<Rightarrow>
               ebind (writeFrame diffHeaders encodeHeader
                        (e\<lparr>scheduler := sch, currentContext := Some channel\<rparr>)) (\<lambda>e1.
                 if len (enc_buffer e1) > 0
                 then Inr (e1\<lparr>enc_consumer := enc_consumer e1 @ [getvalue (enc_buffer e1)],
                             enc_buffer := truncate0 (enc_buffer e1)\<rparr>)
                 else Inr e1)))"

section \<open>Streams (rtmpy/protocol/stream.py)\<close>

text \<open>
  stream.py uses the name \<open>event\<close> in \<open>sendStatus\<close>, \<open>channelRegistered\<close>, \<open>eventReceived\<close>,
  \<open>writeEvent\<close> and \<open>publish\<close>, and nothing binds it: the module imports \<open>urlparse\<close>,
  \<open>implements\<close>, \<open>defer\<close>, \<open>reactor\<close>, \<open>error\<close>, \<open>interfaces\<close>, \<open>status\<close> and \<open>util\<close>
  only.  Evaluating \<open>event.X\<close> raises \<open>NameError\<close>, and that is what the model returns at
  each such place.

  \<open>BaseStream.eventReceived\<close>: the timestamp is updated first, with \<open>relative\<close> left at
  its default \<open>True\<close>; the next statement evaluates \<open>event.get_type_class\<close> and raises.  The
  model returns the stream as the call leaves it and the exception.
\<close>

record BaseStream =
  timestamp :: int

definition setTimestamp :: "int \<Rightarrow> bool \<Rightarrow> 'a BaseStream_scheme \<Rightarrow> 'a BaseStream_scheme" where
  "setTimestamp time relative s =
     (if relative then s\<lparr>timestamp := timestamp s + time\<rparr> else s\<lparr>timestamp := time\<rparr>)"

definition eventReceived ::
  "header \<Rightarrow> byte list \<Rightarrow> 'a BaseStream_scheme \<Rightarrow> 'a BaseStream_scheme \<times> error" where
  "eventReceived hdr body s = (setTimestamp (h_timestamp hdr) True s, NameError)"

text \<open>
  \<open>BaseStream.sendStatus\<close> builds the status object and then evaluates \<open>event.Invoke\<close>,
  which raises before anything is written.
\<close>

definition sendStatus :: "string \<Rightarrow> string \<Rightarrow> error + unit" where
  "sendStatus code description = Inl NameError"

text \<open>
  \<open>SubscriberStream\<close>, the named stream: the subscribers in insertion order and the
  publisher slot.  A subscriber is an object outside the sources.  The model knows of a
  call \<open>getattr(s, attr)(*args)\<close> what it does to the named stream and how it ends: the
  subscriber has no such attribute (\<open>getattr\<close> raises, no call is made), the call returns,
  or the call raises; in the last two cases the callback leaves the named stream in the
  state given (it may subscribe, unsubscribe or set the publisher).  The calls made are
  logged in order.
\<close>

datatype pyarg = PyBytes "byte list" | PyInt int | PyObj nat

type_synonym call = "nat \<times> string \<times> pyarg list"

record SubscriberStream =
  subscribers :: "nat list"
  publisher :: "nat option"

datatype callback_result =
    AttributeMissing
  | Returned SubscriberStream
  | Raised SubscriberStream

type_synonym callbacks = "nat \<Rightarrow> string \<Rightarrow> pyarg list \<Rightarrow> SubscriberStream \<Rightarrow> callback_result"

definition new_SubscriberStream :: SubscriberStream where
  "new_SubscriberStream = \<lparr>subscribers = [], publisher = None\<rparr>"

definition addSubscriber :: "nat \<Rightarrow> SubscriberStream \<Rightarrow> error + SubscriberStream" where
  "addSubscriber subscriber s =
     (if subscriber \<in> set (subscribers s) then Inl ValueError
      else Inr (s\<lparr>subscribers := subscribers s @ [subscriber]\<rparr>))"

definition removeSubscriber :: "nat \<Rightarrow> SubscriberStream \<Rightarrow> error + SubscriberStream" where
  "removeSubscriber subscriber s =
     (if subscriber \<notin> set (subscribers s) then Inl ValueError
      else Inr (s\<lparr>subscribers := remove1 subscriber (subscribers s)\<rparr>))"

text \<open>
  \<open>_notify\<close>: the loop \<open>for s in self.subscribers: m = getattr(s, attr); m(*args)\<close>.
  The \<open>for\<close> statement walks the list object itself by position: after each call it
  looks at the next position of the list as the callback left it, and it ends when the
  position is past the end.  Nothing catches what \<open>getattr\<close> or a call raises, so the
  first exception ends the loop.  A loop whose callbacks keep adding subscribers never
  ends, so the loop is a partial function, \<open>None\<close> when it does not return.
\<close>

partial_function (option) notify_loop ::
  "callbacks \<Rightarrow> string \<Rightarrow> pyarg list \<Rightarrow> nat \<Rightarrow> SubscriberStream \<Rightarrow> call list
     \<Rightarrow> (SubscriberStream \<times> call list \<times> error option) option" where
  "notify_loop cb attr args i s log =
     (if i < length (subscribers s)
      then (case cb (subscribers s ! i) attr args s of
              AttributeMissing \<Rightarrow> Some (s, log, Some AttributeError)
            | Raised s' \<Rightarrow> Some (s', log @ [(subscribers s ! i, attr, args)], Some CallbackError)
            | Returned s' \<Rightarrow>
                notify_loop cb attr args (Suc i) s' (log @ [(subscribers s ! i, attr, args)]))
      else Some (s, log, None))"

declare notify_loop.simps [code]

definition notify ::
  "callbacks \<Rightarrow> string \<Rightarrow> pyarg list \<Rightarrow> SubscriberStream \<Rightarrow> call list
     \<Rightarrow> (SubscriberStream \<times> call list \<times> error option) option" where
  "notify cb attr args s log = notify_loop cb attr args 0 s log"

definition setPublisher ::
  "callbacks \<Rightarrow> nat \<Rightarrow> SubscriberStream \<Rightarrow> call list
     \<Rightarrow> (SubscriberStream \<times> call list \<times> error option) option" where
  "setPublisher cb p s log = notify cb ''streamPublished'' [] (s\<lparr>publisher := Some p\<rparr>) log"

definition removePublisher ::
  "callbacks \<Rightarrow> nat \<Rightarrow> SubscriberStream \<Rightarrow> call list
     \<Rightarrow> (SubscriberStream \<times> call list \<times> error option) option" where
  "removePublisher cb p s log = notify cb ''streamUnpublished'' [] (s\<lparr>publisher := None\<rparr>) log"

definition videoDataReceived ::
  "callbacks \<Rightarrow> byte list \<Rightarrow> int \<Rightarrow> SubscriberStream \<Rightarrow> call list
     \<Rightarrow> (SubscriberStream \<times> call list \<times> error option) option" where
  "videoDataReceived cb bs time s log = notify cb ''videoDataReceived'' [PyBytes bs, PyInt time] s log"

definition audioDataReceived ::
  "callbacks \<Rightarrow> byte list \<Rightarrow> int \<Rightarrow> SubscriberStream \<Rightarrow> call list
     \<Rightarrow> (SubscriberStream \<times> call list \<times> error option) option" where
  "audioDataReceived cb bs time s log = notify cb ''audioDataReceived'' [PyBytes bs, PyInt time] s log"

definition onMetaData ::
  "callbacks \<Rightarrow> pyarg \<Rightarrow> SubscriberStream \<Rightarrow> call list
     \<Rightarrow> (SubscriberStream \<times> call list \<times> error option) option" where
  "onMetaData cb properties s log = notify cb ''onMetaData'' [properties] s log"

text \<open>
  \<open>Stream\<close>, the per-connection stream that publishes.  \<open>stream\<close> refers to a named stream
  of the application, here by its name in the application's registry: two connections
  that publish under one name share the object.  The registry is that of the application
  the second argument of \<open>publish\<close> names.
\<close>

text \<open>
  Modelled from the spec: the application and its hooks, which are outside the sources.
  By section 6 and the publish protocol of section 4.I, \<open>getStream\<close> looks the named
  stream up or creates it and \<open>onPublish\<close> answers the request.  The hook is called through
  \<open>maybeDeferred\<close>: it answers \<open>False\<close>, answers anything else, raises, or hands back a
  Deferred that has not fired when \<open>publish\<close> returns.
\<close>

record Stream = BaseStream +
  published :: bool
  stream :: "string option"
  streamName :: "string option"
  client :: nat

datatype hook_result = HookFalse | HookOther | HookRaises | HookDeferred

type_synonym registry = "string \<rightharpoonup> SubscriberStream"

definition getStream :: "string \<Rightarrow> registry \<Rightarrow> SubscriberStream \<times> registry" where
  "getStream name reg =
     (case reg name of
        Some ns \<Rightarrow> (ns, reg)
      | None \<Rightarrow> (new_SubscriberStream, reg(name \<mapsto> new_SubscriberStream)))"

definition getStreamName :: "(string \<Rightarrow> string) \<Rightarrow> string \<Rightarrow> string" where
  \<comment> \<open>\<open>urlparse(stream)[2]\<close>, the path of the URL; \<open>urlparse\<close> is the library's\<close>
  "getStreamName urlpath url = urlpath url"

text \<open>
  How a call of \<open>publish\<close> ends: it returns its Deferred with nothing failed so far, an
  exception leaves \<open>publish\<close>, or \<open>publish\<close> returns and the callback chain on the hook's
  answer holds a failure.
\<close>

datatype publish_outcome = ReturnedDeferred | RaisedToCaller error | FailedInDeferred error

text \<open>
  \<open>checkPublishRequest\<close>, the callback on the hook's answer: on \<open>False\<close> it calls
  \<open>sendStatus\<close>; otherwise it evaluates \<open>event.ControlEvent(0, 1)\<close>, the argument of
  \<open>writeEvent\<close>, which raises.  \<open>doStatus\<close>, which would send \<open>NetStream.Publish.Start\<close>,
  call \<open>setPublisher\<close> and set \<open>published\<close>, is added as a callback on the result of that
  \<open>writeEvent\<close>, after the raise, so it is never attached.
\<close>

definition checkPublishRequest :: "string \<Rightarrow> bool \<Rightarrow> error + unit" where
  "checkPublishRequest name res_is_False =
     (if res_is_False
      then sendStatus ''NetStream.Publish.BadName'' (''Failed to publish '' @ name @ ''.'')
      else Inl NameError)"

definition publish ::
  "(string \<Rightarrow> string) \<Rightarrow> (nat \<Rightarrow> string \<Rightarrow> hook_result) \<Rightarrow> string
     \<Rightarrow> Stream \<Rightarrow> registry \<Rightarrow> Stream \<times> registry \<times> publish_outcome" where
  "publish urlpath onPublish url st reg =
     (let name = getStreamName urlpath url;
          (ns, reg1) = getStream name reg;
          st1 = st\<lparr>stream := Some name\<rparr>
      in if publisher ns \<noteq> None
         then (case sendStatus ''NetStream.Publish.BadName''
                      (''Failed to publish '' @ name @ ''.'') of
                 Inl err \<Rightarrow> (st1, reg1, RaisedToCaller err)
               | Inr _ \<Rightarrow> (st1, reg1, ReturnedDeferred))
         else
           (let st2 = st1\<lparr>streamName := Some name\<rparr>
            in case onPublish (client st) name of
                 HookRaises \<Rightarrow> (st2, reg1, FailedInDeferred HookError)
               | HookDeferred \<Rightarrow> (st2, reg1, ReturnedDeferred)
               | HookFalse \<Rightarrow>
                   (case checkPublishRequest name True of
                      Inl err \<Rightarrow> (st2, reg1, FailedInDeferred err)
                    | Inr _ \<Rightarrow> (st2, reg1, ReturnedDeferred))
               | HookOther \<Rightarrow>
                   (case checkPublishRequest name False of
                      Inl err \<Rightarrow> (st2, reg1, FailedInDeferred err)
                    | Inr _ \<Rightarrow> (st2, reg1, ReturnedDeferred))))"

definition publisher_of :: "registry \<Rightarrow> string \<Rightarrow> nat option" where
  "publisher_of reg name = (case reg name of None \<Rightarrow> None | Some ns \<Rightarrow> publisher ns)"

section \<open>The round trip of the event codec, stated\<close>

text \<open>
  The encodable domain of each event: every field the encoder needs is set and lies in
  the range of its wire field, and the AMF writer accepts every element of a
  notification.  \<open>normalize\<close> applies the AMF codec's normalisation to the elements of a
  notification and leaves the other events as they are.  \<open>amf_codec\<close> is the contract of
  the external AMF codec: an element the writer accepts has at least one byte, and the
  reader, placed at the start of those bytes, returns the normalised element and stops
  behind them.
\<close>

fun encodable :: "'v amf_writer \<Rightarrow> 'v event \<Rightarrow> bool" where
  "encodable wr (FrameSize fsize) = (case fsize of None \<Rightarrow> False | Some v \<Rightarrow> 0 \<le> v \<and> v < 2 ^ 32)"
| "encodable wr (BytesRead nbytes) = (case nbytes of None \<Rightarrow> False | Some v \<Rightarrow> 0 \<le> v \<and> v < 2 ^ 32)"
| "encodable wr (ControlEvent etype value1 value2 value3) =
     (case etype of None \<Rightarrow> False
      | Some t \<Rightarrow> 0 \<le> t \<and> t < 2 ^ 16
          \<and> - (2 ^ 31) \<le> value1 \<and> value1 < 2 ^ 31
          \<and> - (2 ^ 31) \<le> value2 \<and> value2 < 2 ^ 31
          \<and> - (2 ^ 31) \<le> value3 \<and> value3 < 2 ^ 31)"
| "encodable wr (DownstreamBandwidth bandwidth) =
     (case bandwidth of None \<Rightarrow> False | Some v \<Rightarrow> 0 \<le> v \<and> v < 2 ^ 32)"
| "encodable wr (UpstreamBandwidth bandwidth extra) =
     (case bandwidth of None \<Rightarrow> False
      | Some v \<Rightarrow> (case extra of None \<Rightarrow> False
                   | Some x \<Rightarrow> 0 \<le> v \<and> v < 2 ^ 32 \<and> 0 \<le> x \<and> x < 2 ^ 8))"
| "encodable wr (Notify name ident argv) = list_all (\<lambda>v. isl (wr v) = False) (name # ident # argv)"
| "encodable wr (Invoke name ident argv) = list_all (\<lambda>v. isl (wr v) = False) (name # ident # argv)"
| "encodable wr (AudioData d) = (d \<noteq> None)"
| "encodable wr (VideoData d) = (d \<noteq> None)"

fun normalize :: "('v \<Rightarrow> 'v) \<Rightarrow> 'v event \<Rightarrow> 'v event" where
  "normalize norm (Notify name ident argv) = Notify (norm name) (norm ident) (map norm argv)"
| "normalize norm (Invoke name ident argv) = Invoke (norm name) (norm ident) (map norm argv)"
| "normalize norm ev = ev"

definition amf_codec :: "'v amf_writer \<Rightarrow> 'v amf_reader \<Rightarrow> ('v \<Rightarrow> 'v) \<Rightarrow> bool" where
  "amf_codec wr rd norm =
     (\<forall>v bs pre post. wr v = Inr bs \<longrightarrow>
        bs \<noteq> [] \<and>
        rd \<lparr>buf_data = pre @ bs @ post, buf_pos = length pre\<rparr>
          = Inr (norm v, \<lparr>buf_data = pre @ bs @ post, buf_pos = length pre + length bs\<rparr>))"

text \<open>A codec that satisfies the contract: an element is one byte.\<close>

definition byte_writer :: "byte amf_writer" where
  "byte_writer v = Inr [v]"

definition byte_reader :: "byte amf_reader" where
  "byte_reader b = ebind (read 1 b) (\<lambda>(bs, b'). Inr (hd bs, b'))"

definition same :: "byte \<Rightarrow> byte" where
  "same v = v"

section \<open>Concrete inputs\<close>

text \<open>
  A stream whose last timestamp is 1000, and the header of an audio message on channel 5
  that carries the timestamp 40.
\<close>

definition stream_at_1000 :: BaseStream where
  "stream_at_1000 = \<lparr>timestamp = 1000\<rparr>"

definition audio_header_40 :: header where
  "audio_header_40 =
     \<lparr>h_channelId = 5, h_timestamp = 40, h_bodyLength = 1, h_datatype = AUDIO_DATA,
      h_streamId = 1\<rparr>"

text \<open>
  A named stream with the subscribers 1 and 2 and the publisher 7.  Three kinds of
  subscribers: with \<open>never_raises\<close> every call returns and leaves the named stream alone;
  with \<open>first_raises\<close> the calls of subscriber 1 raise; with \<open>first_unsubscribes\<close> the
  calls of subscriber 1 take it off the named stream and return.
\<close>

definition two_subscribers :: SubscriberStream where
  "two_subscribers = \<lparr>subscribers = [1, 2], publisher = Some 7\<rparr>"

definition never_raises :: callbacks where
  "never_raises x attr args s = Returned s"

definition first_raises :: callbacks where
  "first_raises x attr args s = (if x = 1 then Raised s else Returned s)"

definition first_unsubscribes :: callbacks where
  "first_unsubscribes x attr args s =
     (if x = 1 then Returned (s\<lparr>subscribers := remove1 1 (subscribers s)\<rparr>) else Returned s)"

text \<open>
  A registry in which the stream \<open>live\<close> is published by client 7, an empty registry, the
  stream objects of two connections (clients 8 and 9), a hook that accepts and the
  identity as the URL's path.
\<close>

definition live_registry :: registry where
  "live_registry = [''live'' \<mapsto> two_subscribers]"

definition empty_registry :: registry where
  "empty_registry = Map.empty"

definition stream_of_8 :: Stream where
  "stream_of_8 =
     \<lparr>timestamp = 0, published = False, stream = None, streamName = None, client = 8\<rparr>"

definition stream_of_9 :: Stream where
  "stream_of_9 =
     \<lparr>timestamp = 0, published = False, stream = None, streamName = None, client = 9\<rparr>"

definition accepts :: "nat \<Rightarrow> string \<Rightarrow> hook_result" where
  "accepts c name = HookOther"

definition path_of :: "string \<Rightarrow> string" where
  "path_of url = url"

text \<open>
  A client whose own handshake is 1536 bytes of 5, waiting in the handshake state, and a
  peer's reply: the version byte, 1536 bytes of 9 and the echo of the client's bytes.
\<close>

definition my_bytes :: "byte list" where
  "my_bytes = replicate 1536 5"

definition peer_bytes :: "byte list" where
  "peer_bytes = replicate 1536 9"

definition waiting_client :: RTMPClientProtocol where
  "waiting_client =
     \<lparr>cl_buffer = new_buffer [], cl_state = HANDSHAKE, cl_my_handshake = my_bytes,
      cl_received_handshake = None, cl_written = [HEADER_BYTE, my_bytes],
      cl_dispatched = [], cl_lost = False\<rparr>"

definition no_base :: "byte list \<Rightarrow> RTMPClientProtocol \<Rightarrow> error + RTMPClientProtocol" where
  "no_base bs s = Inr s"

text \<open>
  A decoder stopped inside a frame: the frame size is 128, channel 3 carries a message of
  300 bytes of which 100 have arrived, and the channel is pinned.  The buffer then holds
  the next 150 bytes of the wire: the 28 bytes that end the first frame, the one-byte
  header \<open>0xC3\<close> of the continuation chunk, and 121 bytes of the second frame.
  \<open>started_decoder\<close> is the same decoder one step earlier, the channel pinned with its
  header applied and the first 100 body bytes in the buffer.
\<close>

definition video_header_300 :: header where
  "video_header_300 =
     \<lparr>h_channelId = 3, h_timestamp = 0, h_bodyLength = 300, h_datatype = VIDEO_DATA,
      h_streamId = 1\<rparr>"

definition untouched_channel :: Channel where
  "untouched_channel =
     \<lparr>channel_header = video_header_300, bodyRemaining = 300, frames = 0, bodyBuffer = [],
      completed = []\<rparr>"

definition partial_channel :: Channel where
  "partial_channel =
     \<lparr>channel_header = video_header_300, bodyRemaining = 200, frames = 0,
      bodyBuffer = replicate 100 1, completed = []\<rparr>"

definition started_decoder :: Decoder where
  "started_decoder =
     \<lparr>dec_buffer = \<lparr>buf_data = replicate 100 1, buf_pos = 0\<rparr>, currentChannel = Some 3,
      dec_channels = (\<lambda>c. untouched_channel), dec_frameSize = 128\<rparr>"

definition resumed_decoder :: Decoder where
  "resumed_decoder =
     \<lparr>dec_buffer = \<lparr>buf_data = replicate 28 1 @ [0xC3] @ replicate 121 1, buf_pos = 0\<rparr>,
      currentChannel = Some 3,
      dec_channels = (\<lambda>c. untouched_channel)(3 := partial_channel), dec_frameSize = 128\<rparr>"

text \<open>
  An encoder about to serve channel 3: the channel has 200 bytes of body left, the frame
  size is 128 and the context of the channel is active with 10 bytes in its buffer.  The
  header codec used with it keeps the new header and writes no bytes for it.
\<close>

definition starved_context :: ChannelContext where
  "starved_context =
     \<lparr>ctx_channel = 3, ctx_buffer = \<lparr>buf_data = replicate 10 1, buf_pos = 0\<rparr>,
      ctx_active = True, ctx_header = None\<rparr>"

definition starved_encoder :: Encoder where
  "starved_encoder =
     \<lparr>enc_buffer = new_buffer [], channelContext = [3 \<mapsto> starved_context],
      currentContext = None, enc_consumer = [], scheduler = [3],
      enc_channels = (\<lambda>c. partial_channel), enc_frameSize = 128, enc_running = True\<rparr>"

definition newer_header :: "header \<Rightarrow> header \<Rightarrow> header" where
  "newer_header old new = new"

definition no_header_bytes :: "header \<Rightarrow> byte list" where
  "no_header_bytes h = []"

section \<open>Properties of the byte buffer\<close>

lemma be_int_snoc: "be_int (bs @ [b]) = be_int bs * 256 + uint b"
  by (simp add: be_int_def)

lemma be_int_be_bytes: "be_int (be_bytes k v) = v mod 256 ^ k"
proof (induction k arbitrary: v)
  case 0 then show ?case by (simp add: be_int_def)
next
  case (Suc k)
  have "uint (word_of_int v :: byte) = v mod 256"
    by (simp add: uint_word_of_int take_bit_eq_mod)
  moreover have "v mod (256 * 256 ^ k) = 256 * (v div 256 mod 256 ^ k) + v mod 256"
    by (rule zmod_zmult2_eq) simp
  ultimately show ?case
    using Suc[of "v div 256"] by (simp add: be_int_snoc)
qed

lemma length_be_bytes: "length (be_bytes k v) = k"
  by (induction k arbitrary: v) auto

lemma to_signed_mod:
  assumes "0 < k" "- (2 ^ (8 * k - 1)) \<le> v" "v < 2 ^ (8 * k - 1)"
  shows "to_signed k (v mod 256 ^ k) = v"
proof -
  have e: "(256::int) ^ k = 2 * 2 ^ (8 * k - 1)"
    using assms(1) by (cases k) (simp_all add: power_mult power_add)
  show ?thesis
  proof (cases "0 \<le> v")
    case True
    then have "v mod 256 ^ k = v" using assms e by simp
    then show ?thesis using assms True by (simp add: to_signed_def)
  next
    case False
    have "(v + 256 ^ k) mod 256 ^ k = v + 256 ^ k"
      by (rule mod_pos_pos_trivial) (use assms e False in simp_all)
    then have "v mod 256 ^ k = v + 256 ^ k" by simp
    then show ?thesis using assms False e by (simp add: to_signed_def power_mult)
  qed
qed

lemma write_uint_at:
  "write_uint k v \<lparr>buf_data = d, buf_pos = length d\<rparr> = Inr b \<Longrightarrow>
     0 \<le> v \<and> v < 2 ^ (8 * k) \<and> b = \<lparr>buf_data = d @ be_bytes k v, buf_pos = length d + k\<rparr>"
  by (auto simp: write_uint_def write_bytes_def length_be_bytes split: if_splits)

lemma write_sint_at:
  "write_sint k v \<lparr>buf_data = d, buf_pos = length d\<rparr> = Inr b \<Longrightarrow>
     - (2 ^ (8 * k - 1)) \<le> v \<and> v < 2 ^ (8 * k - 1)
     \<and> b = \<lparr>buf_data = d @ be_bytes k v, buf_pos = length d + k\<rparr>"
  by (auto simp: write_sint_def write_bytes_def length_be_bytes split: if_splits)

lemma read_uint_at:
  assumes "0 \<le> v" "v < 2 ^ (8 * k)"
  shows "read_uint k \<lparr>buf_data = pre @ be_bytes k v @ post, buf_pos = length pre\<rparr>
           = Inr (v, \<lparr>buf_data = pre @ be_bytes k v @ post, buf_pos = length pre + k\<rparr>)"
proof -
  have "(256::int) ^ k = 2 ^ (8 * k)" by (simp add: power_mult)
  then have "v mod 256 ^ k = v" using assms by simp
  then show ?thesis
    by (simp add: read_uint_def read_def length_be_bytes be_int_be_bytes)
qed

lemma read_sint_at:
  assumes "0 < k" "- (2 ^ (8 * k - 1)) \<le> v" "v < 2 ^ (8 * k - 1)"
  shows "read_sint k \<lparr>buf_data = pre @ be_bytes k v @ post, buf_pos = length pre\<rparr>
           = Inr (v, \<lparr>buf_data = pre @ be_bytes k v @ post, buf_pos = length pre + k\<rparr>)"
  using to_signed_mod[OF assms]
  by (simp add: read_sint_def read_def length_be_bytes be_int_be_bytes)

lemma tee_Inr: "type_error_as_encode_error r = Inr x \<longleftrightarrow> r = Inr x"
  by (cases r) (auto simp: type_error_as_encode_error_def)

lemma ebind_Inr: "ebind m f = Inr y \<longleftrightarrow> (\<exists>x. m = Inr x \<and> f x = Inr y)"
  by (cases m) auto

lemma read_uint_cases:
  "read_uint k b =
     (if buf_pos b + k \<le> length (buf_data b)
      then Inr (be_int (take k (drop (buf_pos b) (buf_data b))), b\<lparr>buf_pos := buf_pos b + k\<rparr>)
      else Inl EOFError)"
  by (simp add: read_uint_def read_def)

lemma read_sint_cases:
  "read_sint k b =
     (if buf_pos b + k \<le> length (buf_data b)
      then Inr (to_signed k (be_int (take k (drop (buf_pos b) (buf_data b)))),
                b\<lparr>buf_pos := buf_pos b + k\<rparr>)
      else Inl EOFError)"
  by (simp add: read_sint_def read_def)

lemma write_uint_end:
  assumes "write_uint k v b0 = Inr b" "buf_pos b0 = length (buf_data b0)"
  shows "0 \<le> v \<and> v < 2 ^ (8 * k) \<and> buf_data b = buf_data b0 @ be_bytes k v
         \<and> buf_pos b = length (buf_data b)"
  using assms by (auto simp: write_uint_def write_bytes_def length_be_bytes split: if_splits)

lemma write_sint_end:
  assumes "write_sint k v b0 = Inr b" "buf_pos b0 = length (buf_data b0)"
  shows "- (2 ^ (8 * k - 1)) \<le> v \<and> v < 2 ^ (8 * k - 1)
         \<and> buf_data b = buf_data b0 @ be_bytes k v \<and> buf_pos b = length (buf_data b)"
  using assms by (auto simp: write_sint_def write_bytes_def length_be_bytes split: if_splits)

section \<open>Properties of the event codec\<close>

lemma map_of_TYPE_MAP_CONTROL: "map_of TYPE_MAP CONTROL = Some ControlEventC"
  by (simp add: TYPE_MAP_def CONTROL_def FRAME_SIZE_def BYTES_READ_def)

lemma encode_event_control:
  assumes "encode_event wr (ControlEvent (Some t) v1 v2 v3) (new_buffer []) = Inr b"
  shows "buf_data b = be_bytes 2 t @ be_bytes 4 v1 @ be_bytes 4 v2 @ be_bytes 4 v3
     \<and> 0 \<le> t \<and> t < 2 ^ 16
     \<and> - (2 ^ 31) \<le> v1 \<and> v1 < 2 ^ 31 \<and> - (2 ^ 31) \<le> v2 \<and> v2 < 2 ^ 31
     \<and> - (2 ^ 31) \<le> v3 \<and> v3 < 2 ^ 31"
proof -
  from assms obtain b1 b2 b3 where
    w1: "write_uint 2 t (new_buffer []) = Inr b1" and w2: "write_sint 4 v1 b1 = Inr b2" and
    w3: "write_sint 4 v2 b2 = Inr b3" and w4: "write_sint 4 v3 b3 = Inr b"
    by (auto simp: ebind_Inr tee_Inr write_short_def write_long_def)
  have p0: "buf_pos (new_buffer []) = length (buf_data (new_buffer []))"
    by (simp add: new_buffer_def)
  note r1 = write_uint_end[OF w1 p0]
  note r2 = write_sint_end[OF w2]
  note r3 = write_sint_end[OF w3]
  note r4 = write_sint_end[OF w4]
  from r1 r2 r3 r4 show ?thesis by (simp add: new_buffer_def)
qed

lemma decode_control_short:
  "length body < 14 \<Longrightarrow> decode rd CONTROL body = Some (Inl EOFError)"
  by (simp add: decode_def map_of_TYPE_MAP_CONTROL new_buffer_def read_short_def read_long_def
      read_uint_cases read_sint_cases)

text \<open>
  C8, as the claim states it, fails: a control body that holds only the subtype and the
  first value (6 bytes) does not decode; the decoder reads the subtype and three values
  and the third read runs off the end of the body.
\<close>

theorem control_short_body_is_rejected:
  "decode byte_reader CONTROL [0, 6, 0, 0, 0, 1] = Some (Inl EOFError)"
  by (simp add: decode_def map_of_TYPE_MAP_CONTROL new_buffer_def read_short_def read_long_def
      read_uint_cases read_sint_cases)

text \<open>
  C8, amended: decoding a control body shorter than 14 bytes (the subtype and three
  values) fails with a short read, so a body without the trailing values is rejected,
  not completed with \<open>-1\<close>; a control event whose type is not set is refused by the
  encoder; every other control event that the encoder accepts is written as the subtype
  and all three values, 14 bytes, under the datatype \<open>CONTROL\<close>.
\<close>

theorem control_event_codec:
  "(length body < 14 \<longrightarrow> decode rd CONTROL body = Some (Inl EOFError))
   \<and> encode wr (ControlEvent None v1 v2 v3) = Inl EncodeError
   \<and> (encode wr (ControlEvent (Some t) v1 v2 v3) = Inr (d, bs) \<longrightarrow>
        d = CONTROL \<and> bs = be_bytes 2 t @ be_bytes 4 v1 @ be_bytes 4 v2 @ be_bytes 4 v3
        \<and> length bs = 14)"
proof (intro conjI impI)
  assume "length body < 14"
  then show "decode rd CONTROL body = Some (Inl EOFError)" by (rule decode_control_short)
next
  show "encode wr (ControlEvent None v1 v2 v3) = Inl EncodeError"
    by (simp add: encode_def TYPE_MAP_def)
next
  assume h: "encode wr (ControlEvent (Some t) v1 v2 v3) = Inr (d, bs)"
  then obtain b where e: "encode_event wr (ControlEvent (Some t) v1 v2 v3) (new_buffer []) = Inr b"
    and d: "d = CONTROL" and bs: "bs = buf_data b"
    by (auto simp: encode_def TYPE_MAP_def ebind_Inr getvalue_def)
  from encode_event_control[OF e] d bs
  show "d = CONTROL" and "bs = be_bytes 2 t @ be_bytes 4 v1 @ be_bytes 4 v2 @ be_bytes 4 v3"
    and "length bs = 14"
    by (simp_all add: length_be_bytes)
qed

theorem control_event_codec_witness:
  "length [0, 6, 0, 0, 0, 1 :: byte] < 14
   \<and> decode byte_reader CONTROL [0, 6, 0, 0, 0, 1] = Some (Inl EOFError)
   \<and> encode byte_writer (ControlEvent (Some 6) 1 (- 1) (- 1))
       = Inr (CONTROL, [0, 6, 0, 0, 0, 1, 255, 255, 255, 255, 255, 255, 255, 255])
   \<and> [0, 6, 0, 0, 0, 1, 255, 255, 255, 255, 255, 255, 255, 255]
       = be_bytes 2 6 @ be_bytes 4 1 @ be_bytes 4 (- 1) @ be_bytes 4 (- 1)"
proof -
  have l: "length [0, 6, 0, 0, 0, 1 :: byte] < 14" by simp
  have e: "encode byte_writer (ControlEvent (Some 6) 1 (- 1) (- 1))
       = Inr (CONTROL, [0, 6, 0, 0, 0, 1, 255, 255, 255, 255, 255, 255, 255, 255])"
    by code_simp
  from control_event_codec[of "[0, 6, 0, 0, 0, 1]" byte_reader byte_writer 1 "- 1" "- 1" 6
      CONTROL "[0, 6, 0, 0, 0, 1, 255, 255, 255, 255, 255, 255, 255, 255]"] l e
  show ?thesis by simp
qed

text \<open>
  C4, as the claim states it, fails: for the datatype 2, which is not in the type map,
  \<open>decode\<close> fails with \<open>DecodeError\<close>, not with \<open>UnknownEventType\<close>.
\<close>

theorem decode_unknown_datatype_is_DecodeError:
  "map_of TYPE_MAP 2 = None
   \<and> decode byte_reader 2 [] = Some (Inl DecodeError)
   \<and> decode byte_reader 2 [] \<noteq> Some (Inl UnknownEventType)"
  by (simp add: decode_def TYPE_MAP_def FRAME_SIZE_def BYTES_READ_def CONTROL_def
      DOWNSTREAM_BANDWIDTH_def UPSTREAM_BANDWIDTH_def NOTIFY_def INVOKE_def AUDIO_DATA_def
      VIDEO_DATA_def)

text \<open>
  C4, amended: for every datatype that is not in the type map and every body,
  \<open>decode\<close> fails, with \<open>DecodeError\<close>; \<open>UnknownEventType\<close> is the error with which
  \<open>get_type_class\<close> fails for such a datatype.
\<close>

theorem unknown_datatype_errors:
  assumes "map_of TYPE_MAP datatype = None"
  shows "decode rd datatype body = Some (Inl DecodeError)
     \<and> get_type_class datatype = Inl UnknownEventType"
  using assms by (simp add: decode_def get_type_class_def)

theorem unknown_datatype_errors_witness:
  "map_of TYPE_MAP 2 = None
   \<and> decode byte_reader 2 [7] = Some (Inl DecodeError)
   \<and> get_type_class 2 = Inl UnknownEventType"
proof -
  have n: "map_of TYPE_MAP 2 = None"
    by (simp add: TYPE_MAP_def FRAME_SIZE_def BYTES_READ_def CONTROL_def
        DOWNSTREAM_BANDWIDTH_def UPSTREAM_BANDWIDTH_def NOTIFY_def INVOKE_def AUDIO_DATA_def
        VIDEO_DATA_def)
  from unknown_datatype_errors[OF n, of byte_reader "[7]"] n
  show ?thesis by simp
qed

section \<open>Properties of the streams\<close>

text \<open>
  C6, as the claim states it, fails: a stream whose timestamp is 1000 receives a message
  whose header carries the timestamp 40; afterwards the stream's timestamp is 1040, not 40.
\<close>

theorem eventReceived_adds_timestamp_example:
  "timestamp (fst (eventReceived audio_header_40 [7] stream_at_1000)) = 1040
   \<and> h_timestamp audio_header_40 = 40"
  by (simp add: eventReceived_def setTimestamp_def stream_at_1000_def audio_header_40_def)

text \<open>
  C6, amended: for every message arriving on a channel, \<open>eventReceived\<close> adds the
  timestamp of the channel's header to the stream's timestamp (\<open>setTimestamp\<close> is called
  with \<open>relative\<close> at its default \<open>True\<close>); this holds whatever the datatype and the body
  are, the update being made before anything else.
\<close>

theorem eventReceived_timestamp:
  "timestamp (fst (eventReceived hdr body s)) = timestamp s + h_timestamp hdr"
  by (simp add: eventReceived_def setTimestamp_def)

text \<open>
  The loop of \<open>_notify\<close>, as long as the callbacks return and leave the named stream as
  it was, moves on through the list.
\<close>

lemma notify_loop_prefix:
  assumes "drop i (subscribers s) = pre @ rest"
    and "\<forall>y \<in> set pre. cb y attr args s = Returned s"
  shows "notify_loop cb attr args i s log
           = notify_loop cb attr args (i + length pre) s (log @ map (\<lambda>y. (y, attr, args)) pre)"
  using assms
proof (induction pre arbitrary: i log)
  case Nil
  then show ?case by simp
next
  case (Cons y pre)
  from Cons.prems(1) have i: "i < length (subscribers s)"
    by (metis drop_all leI list.distinct(1) append_Cons)
  with Cons.prems(1) have y: "subscribers s ! i = y"
    by (metis nth_via_drop append_Cons)
  from Cons.prems(1) i have d: "drop (Suc i) (subscribers s) = pre @ rest"
    by (metis Cons_nth_drop_Suc append_Cons list.inject)
  from Cons.prems(2) have r: "cb y attr args s = Returned s" and p: "\<forall>z \<in> set pre. cb z attr args s = Returned s"
    by simp_all
  have "notify_loop cb attr args i s log
      = notify_loop cb attr args (Suc i) s (log @ [(y, attr, args)])"
    by (subst notify_loop.simps) (simp add: i y r)
  also have "\<dots> = notify_loop cb attr args (Suc i + length pre) s
                     ((log @ [(y, attr, args)]) @ map (\<lambda>y. (y, attr, args)) pre)"
    by (rule Cons.IH[OF d p])
  finally show ?case by simp
qed

lemma notify_all_return:
  assumes "\<forall>y \<in> set (subscribers s). cb y attr args s = Returned s"
  shows "notify cb attr args s log
           = Some (s, log @ map (\<lambda>y. (y, attr, args)) (subscribers s), None)"
proof -
  have "notify_loop cb attr args 0 s log
      = notify_loop cb attr args (0 + length (subscribers s)) s
          (log @ map (\<lambda>y. (y, attr, args)) (subscribers s))"
    by (rule notify_loop_prefix[where rest = "[]"]) (use assms in simp_all)
  also have "\<dots> = Some (s, log @ map (\<lambda>y. (y, attr, args)) (subscribers s), None)"
    by (subst notify_loop.simps) simp
  finally show ?thesis by (simp add: notify_def)
qed

lemma notify_first_raise:
  assumes "subscribers s = pre @ x # post"
    and "\<forall>y \<in> set pre. cb y attr args s = Returned s"
    and "cb x attr args s = Raised s'"
  shows "notify cb attr args s log
           = Some (s', log @ map (\<lambda>y. (y, attr, args)) (pre @ [x]), Some CallbackError)"
proof -
  have "notify_loop cb attr args 0 s log
      = notify_loop cb attr args (0 + length pre) s (log @ map (\<lambda>y. (y, attr, args)) pre)"
    by (rule notify_loop_prefix[where rest = "x # post"]) (use assms in simp_all)
  also have "\<dots> = Some (s', log @ map (\<lambda>y. (y, attr, args)) (pre @ [x]), Some CallbackError)"
    by (subst notify_loop.simps) (simp add: assms(1,3))
  finally show ?thesis by (simp add: notify_def)
qed

text \<open>
  A subscriber without the method ends the loop as well, with \<open>AttributeError\<close> and
  without a call.
\<close>

lemma notify_first_missing:
  assumes "subscribers s = pre @ x # post"
    and "\<forall>y \<in> set pre. cb y attr args s = Returned s"
    and "cb x attr args s = AttributeMissing"
  shows "notify cb attr args s log
           = Some (s, log @ map (\<lambda>y. (y, attr, args)) pre, Some AttributeError)"
proof -
  have "notify_loop cb attr args 0 s log
      = notify_loop cb attr args (0 + length pre) s (log @ map (\<lambda>y. (y, attr, args)) pre)"
    by (rule notify_loop_prefix[where rest = "x # post"]) (use assms in simp_all)
  also have "\<dots> = Some (s, log @ map (\<lambda>y. (y, attr, args)) pre, Some AttributeError)"
    by (subst notify_loop.simps) (simp add: assms(1,3))
  finally show ?thesis by (simp add: notify_def)
qed

text \<open>
  C9, as the claim states it, fails: with the subscribers 1 and 2, of which the first
  raises, a video delivery reaches subscriber 1 only; the exception leaves the loop and
  subscriber 2 receives nothing.
\<close>

theorem fanout_stops_at_raising_subscriber:
  "videoDataReceived first_raises [9] 5 two_subscribers []
     = Some (two_subscribers, [(1, ''videoDataReceived'', [PyBytes [9], PyInt 5])],
             Some CallbackError)"
proof -
  have s: "subscribers two_subscribers = [] @ 1 # [2]" by (simp add: two_subscribers_def)
  have r: "first_raises 1 ''videoDataReceived'' [PyBytes [9], PyInt 5] two_subscribers
      = Raised two_subscribers"
    by (simp add: first_raises_def)
  from notify_first_raise[of two_subscribers "[]" 1 "[2]" first_raises "''videoDataReceived''"
      "[PyBytes [9], PyInt 5]" two_subscribers "[]"] s r
  show ?thesis by (simp add: videoDataReceived_def)
qed

text \<open>
  A callback need not raise to keep a subscriber from a delivery: the loop walks the
  list itself, so when the callback of subscriber 1 unsubscribes it, subscriber 2 moves
  to the position already visited and is passed over.
\<close>

lemma unsubscribing_callback_skips_next:
  "videoDataReceived first_unsubscribes [9] 5 two_subscribers []
     = Some (\<lparr>subscribers = [2], publisher = Some 7\<rparr>,
             [(1, ''videoDataReceived'', [PyBytes [9], PyInt 5])], None)"
  by code_simp

text \<open>
  C9, amended: an audio or video fan-out calls the subscribers in insertion order, with
  the bytes and the timestamp, and nothing in it catches an exception.  When the
  callbacks of the subscribers before \<open>x\<close> return and leave the named stream as it was
  and the callback of \<open>x\<close> raises, exactly those subscribers and \<open>x\<close> have been called,
  the subscribers after \<open>x\<close> receive nothing, and the exception leaves the fan-out with
  the named stream as the raising callback left it: the fan-out removes nobody.  When
  every callback returns and leaves the named stream as it was, every current subscriber
  receives the delivery and the named stream, with its subscribers, is unchanged.
\<close>

theorem fanout_until_first_raise:
  "((\<forall>y \<in> set (subscribers s).
        cb y ''videoDataReceived'' [PyBytes bs, PyInt t] s = Returned s) \<longrightarrow>
      videoDataReceived cb bs t s log
        = Some (s, log @ map (\<lambda>y. (y, ''videoDataReceived'', [PyBytes bs, PyInt t]))
                        (subscribers s), None))
   \<and> (subscribers s = pre @ x # post
        \<and> (\<forall>y \<in> set pre. cb y ''videoDataReceived'' [PyBytes bs, PyInt t] s = Returned s)
        \<and> cb x ''videoDataReceived'' [PyBytes bs, PyInt t] s = Raised s' \<longrightarrow>
      videoDataReceived cb bs t s log
        = Some (s', log @ map (\<lambda>y. (y, ''videoDataReceived'', [PyBytes bs, PyInt t]))
                         (pre @ [x]), Some CallbackError))
   \<and> ((\<forall>y \<in> set (subscribers s).
        cb y ''audioDataReceived'' [PyBytes bs, PyInt t] s = Returned s) \<longrightarrow>
      audioDataReceived cb bs t s log
        = Some (s, log @ map (\<lambda>y. (y, ''audioDataReceived'', [PyBytes bs, PyInt t]))
                        (subscribers s), None))
   \<and> (subscribers s = pre @ x # post
        \<and> (\<forall>y \<in> set pre. cb y ''audioDataReceived'' [PyBytes bs, PyInt t] s = Returned s)
        \<and> cb x ''audioDataReceived'' [PyBytes bs, PyInt t] s = Raised s' \<longrightarrow>
      audioDataReceived cb bs t s log
        = Some (s', log @ map (\<lambda>y. (y, ''audioDataReceived'', [PyBytes bs, PyInt t]))
                         (pre @ [x]), Some CallbackError))"
  unfolding videoDataReceived_def audioDataReceived_def
  using notify_all_return[of s cb] notify_first_raise[of s pre x post cb]
  by blast

theorem fanout_until_first_raise_witness:
  "subscribers two_subscribers = [1, 2]
   \<and> never_raises 1 ''videoDataReceived'' [PyBytes [9], PyInt 5] two_subscribers
       = Returned two_subscribers
   \<and> never_raises 2 ''videoDataReceived'' [PyBytes [9], PyInt 5] two_subscribers
       = Returned two_subscribers
   \<and> videoDataReceived never_raises [9] 5 two_subscribers []
       = Some (two_subscribers,
               [(1, ''videoDataReceived'', [PyBytes [9], PyInt 5]),
                (2, ''videoDataReceived'', [PyBytes [9], PyInt 5])], None)
   \<and> subscribers two_subscribers = [] @ 1 # [2]
   \<and> first_raises 1 ''audioDataReceived'' [PyBytes [9], PyInt 5] two_subscribers
       = Raised two_subscribers
   \<and> audioDataReceived first_raises [9] 5 two_subscribers []
       = Some (two_subscribers, [(1, ''audioDataReceived'', [PyBytes [9], PyInt 5])],
               Some CallbackError)"
proof -
  have a: "\<forall>y \<in> set (subscribers two_subscribers).
       never_raises y ''videoDataReceived'' [PyBytes [9], PyInt 5] two_subscribers
         = Returned two_subscribers"
    by (simp add: never_raises_def)
  have m: "subscribers two_subscribers = [1, 2]" by (simp add: two_subscribers_def)
  have s: "subscribers two_subscribers = [] @ 1 # [2]" by (simp add: m)
  have e: "\<forall>y \<in> set []. first_raises y ''audioDataReceived'' [PyBytes [9], PyInt 5] two_subscribers
       = Returned two_subscribers"
    by simp
  have r: "first_raises 1 ''audioDataReceived'' [PyBytes [9], PyInt 5] two_subscribers
       = Raised two_subscribers"
    by (simp add: first_raises_def)
  from fanout_until_first_raise[of two_subscribers never_raises "[9]" 5 "[]"] a
  have v: "videoDataReceived never_raises [9] 5 two_subscribers []
       = Some (two_subscribers,
               [] @ map (\<lambda>y. (y, ''videoDataReceived'', [PyBytes [9], PyInt 5]))
                        (subscribers two_subscribers), None)"
    by blast
  from fanout_until_first_raise[of two_subscribers first_raises "[9]" 5 "[]" "[]" 1 "[2]"
      two_subscribers] s e r
  have u: "audioDataReceived first_raises [9] 5 two_subscribers []
       = Some (two_subscribers,
               [] @ map (\<lambda>y. (y, ''audioDataReceived'', [PyBytes [9], PyInt 5])) ([] @ [1]),
               Some CallbackError)"
    by blast
  have n: "never_raises 1 ''videoDataReceived'' [PyBytes [9], PyInt 5] two_subscribers
       = Returned two_subscribers"
    "never_raises 2 ''videoDataReceived'' [PyBytes [9], PyInt 5] two_subscribers
       = Returned two_subscribers"
    by (simp_all add: never_raises_def)
  from n s r v u show ?thesis by (simp add: m)
qed

text \<open>
  C10, as the claim states it, fails: with the subscribers 1 and 2, of which the first
  raises, \<open>removePublisher\<close> notifies subscriber 1 only; subscriber 2 is not notified.
\<close>

theorem removePublisher_stops_at_raising_subscriber:
  "subscribers two_subscribers = [1, 2]
   \<and> removePublisher first_raises 7 two_subscribers []
       = Some (\<lparr>subscribers = [1, 2], publisher = None\<rparr>, [(1, ''streamUnpublished'', [])],
               Some CallbackError)"
proof -
  have m: "subscribers two_subscribers = [1, 2]" by (simp add: two_subscribers_def)
  have s: "subscribers (two_subscribers\<lparr>publisher := None\<rparr>) = [] @ 1 # [2]" by (simp add: m)
  have r: "first_raises 1 ''streamUnpublished'' [] (two_subscribers\<lparr>publisher := None\<rparr>)
      = Raised (two_subscribers\<lparr>publisher := None\<rparr>)"
    by (simp add: first_raises_def)
  from notify_first_raise[of "two_subscribers\<lparr>publisher := None\<rparr>" "[]" 1 "[2]" first_raises
      "''streamUnpublished''" "[]" "two_subscribers\<lparr>publisher := None\<rparr>" "[]"] s r
  have "removePublisher first_raises 7 two_subscribers []
      = Some (two_subscribers\<lparr>publisher := None\<rparr>, [(1, ''streamUnpublished'', [])],
              Some CallbackError)"
    by (simp add: removePublisher_def)
  with m show ?thesis by (simp add: two_subscribers_def)
qed

text \<open>
  C10, amended: for every argument \<open>p\<close>, also one that is not the current publisher and
  also when no publisher is set, \<open>removePublisher p\<close> sets the publisher to \<open>None\<close> and
  then notifies the subscribers with \<open>streamUnpublished\<close>; the argument is never compared
  with anything, so any two arguments give the same result.  Every subscriber is
  notified when every callback returns and leaves the named stream as it was; a callback
  that raises ends the notification, and the subscribers after it are not notified.
\<close>

theorem removePublisher_ignores_argument:
  "removePublisher cb p s log = removePublisher cb q s log
   \<and> removePublisher cb p s log = notify cb ''streamUnpublished'' [] (s\<lparr>publisher := None\<rparr>) log
   \<and> ((\<forall>y \<in> set (subscribers s).
          cb y ''streamUnpublished'' [] (s\<lparr>publisher := None\<rparr>) = Returned (s\<lparr>publisher := None\<rparr>)) \<longrightarrow>
        removePublisher cb p s log
          = Some (s\<lparr>publisher := None\<rparr>,
                  log @ map (\<lambda>y. (y, ''streamUnpublished'', [])) (subscribers s), None))
   \<and> (subscribers s = pre @ x # post
        \<and> (\<forall>y \<in> set pre.
              cb y ''streamUnpublished'' [] (s\<lparr>publisher := None\<rparr>) = Returned (s\<lparr>publisher := None\<rparr>))
        \<and> cb x ''streamUnpublished'' [] (s\<lparr>publisher := None\<rparr>) = Raised s' \<longrightarrow>
        removePublisher cb p s log
          = Some (s', log @ map (\<lambda>y. (y, ''streamUnpublished'', [])) (pre @ [x]),
                  Some CallbackError))"
  unfolding removePublisher_def
  using notify_all_return[of "s\<lparr>publisher := None\<rparr>" cb "''streamUnpublished''" "[]" log]
    notify_first_raise[of "s\<lparr>publisher := None\<rparr>" pre x post cb "''streamUnpublished''" "[]" s' log]
  by simp

theorem removePublisher_ignores_argument_witness:
  "publisher two_subscribers = Some 7
   \<and> subscribers two_subscribers = [1, 2]
   \<and> never_raises 1 ''streamUnpublished'' [] (two_subscribers\<lparr>publisher := None\<rparr>)
       = Returned (two_subscribers\<lparr>publisher := None\<rparr>)
   \<and> never_raises 2 ''streamUnpublished'' [] (two_subscribers\<lparr>publisher := None\<rparr>)
       = Returned (two_subscribers\<lparr>publisher := None\<rparr>)
   \<and> removePublisher never_raises 99 two_subscribers []
       = Some (\<lparr>subscribers = [1, 2], publisher = None\<rparr>,
               [(1, ''streamUnpublished'', []), (2, ''streamUnpublished'', [])], None)"
proof -
  have a: "\<forall>y \<in> set (subscribers two_subscribers).
          never_raises y ''streamUnpublished'' [] (two_subscribers\<lparr>publisher := None\<rparr>)
            = Returned (two_subscribers\<lparr>publisher := None\<rparr>)"
    by (simp add: never_raises_def)
  from removePublisher_ignores_argument[of never_raises 99 two_subscribers "[]" 99] a
  have "removePublisher never_raises 99 two_subscribers []
          = Some (two_subscribers\<lparr>publisher := None\<rparr>,
                  [] @ map (\<lambda>y. (y, ''streamUnpublished'', [])) (subscribers two_subscribers),
                  None)"
    by blast
  then show ?thesis by (simp add: two_subscribers_def never_raises_def)
qed

lemma getStream_publisher:
  "getStream name reg = (ns, reg1) \<Longrightarrow>
     publisher ns = publisher_of reg name \<and> publisher_of reg1 n = publisher_of reg n"
  by (auto simp: getStream_def publisher_of_def new_SubscriberStream_def
      split: option.splits if_splits)

text \<open>
  No call of \<open>publish\<close> changes the publisher of any named stream or marks the stream
  object as published.
\<close>

lemma publish_sets_no_publisher:
  assumes "publish urlpath onPublish url st reg = (st', reg', r)"
  shows "publisher_of reg' n = publisher_of reg n \<and> published st' = published st"
proof -
  obtain ns reg1 where g: "getStream (urlpath url) reg = (ns, reg1)"
    by (cases "getStream (urlpath url) reg")
  from getStream_publisher[OF g, of n] g assms show ?thesis
    by (auto simp: publish_def Let_def getStreamName_def sendStatus_def checkPublishRequest_def
        split: if_splits hook_result.splits)
qed

text \<open>
  C7 asks that a publish request on a named stream that has a publisher is answered
  with the status \<open>NetStream.Publish.BadName\<close>, and that a request on a stream without
  one, accepted by the hook, makes the caller the publisher.  \<open>publish\<close> sets out to do
  both and does neither, the name \<open>event\<close> being unbound.  On the stream \<open>live\<close>, published
  by client 7, the request of client 8 ends in \<open>NameError\<close>, raised out of \<open>publish\<close> by
  \<open>sendStatus\<close>: no status is sent; the publisher stays client 7.  On an empty registry
  the request of client 9, accepted by the hook, creates the named stream and fails in
  the callback on the hook's answer: the stream has no publisher afterwards.
\<close>

theorem publish_ends_in_NameError:
  "publisher_of live_registry ''live'' = Some 7
   \<and> publish path_of accepts ''live'' stream_of_8 live_registry
       = (stream_of_8\<lparr>stream := Some ''live''\<rparr>, live_registry, RaisedToCaller NameError)
   \<and> publish path_of accepts ''live'' stream_of_9 empty_registry
       = (stream_of_9\<lparr>stream := Some ''live'', streamName := Some ''live''\<rparr>,
          [''live'' \<mapsto> new_SubscriberStream], FailedInDeferred NameError)
   \<and> publisher_of [''live'' \<mapsto> new_SubscriberStream] ''live'' = None"
  by (simp add: publish_def Let_def getStreamName_def getStream_def path_of_def accepts_def
      live_registry_def empty_registry_def two_subscribers_def publisher_of_def
      new_SubscriberStream_def sendStatus_def checkPublishRequest_def stream_of_8_def
      stream_of_9_def)

section \<open>Properties of the client handshake\<close>

lemma dataReceived_handshake:
  "cl_state s = HANDSHAKE \<Longrightarrow>
   dataReceived base bs s
     = decodeHandshake (s\<lparr>cl_buffer := \<lparr>buf_data = buf_data (cl_buffer s) @ bs, buf_pos = 0\<rparr>\<rparr>)"
  by (simp add: dataReceived_def seek_def seek_end_def write_bytes_def)

lemma decodeHandshake_start:
  assumes "cl_buffer s = \<lparr>buf_data = whole, buf_pos = 0\<rparr>"
  shows "decodeHandshake s =
     (if whole = [] then Inr s
      else if hd whole \<noteq> 0x03
      then Inr (s\<lparr>cl_buffer := \<lparr>buf_data = whole, buf_pos = 1\<rparr>,
                 cl_dispatched := cl_dispatched s @ [HANDSHAKE_FAILURE ''Invalid header byte received'']\<rparr>)
      else if length whole < 1 + 2 * HANDSHAKE_LENGTH
      then Inr (s\<lparr>cl_buffer := \<lparr>buf_data = whole, buf_pos = 1\<rparr>\<rparr>)
      else if take HANDSHAKE_LENGTH (drop (1 + HANDSHAKE_LENGTH) whole) \<noteq> cl_my_handshake s
      then Inr (s\<lparr>cl_buffer := \<lparr>buf_data = whole, buf_pos = 1 + 2 * HANDSHAKE_LENGTH\<rparr>,
                 cl_received_handshake := Some (take HANDSHAKE_LENGTH (drop 1 whole)),
                 cl_dispatched := cl_dispatched s @ [HANDSHAKE_FAILURE ''Handshake mismatch'']\<rparr>)
      else Inr (s\<lparr>cl_buffer := \<lparr>buf_data = drop (1 + 2 * HANDSHAKE_LENGTH) whole, buf_pos = 0\<rparr>,
                 cl_received_handshake := Some (take HANDSHAKE_LENGTH (drop 1 whole)),
                 cl_written := cl_written s @ [take HANDSHAKE_LENGTH (drop 1 whole)],
                 cl_dispatched := cl_dispatched s @ [HANDSHAKE_SUCCESS]\<rparr>))"
proof (cases whole)
  case Nil
  with assms show ?thesis by (simp add: decodeHandshake_def len_def)
next
  case (Cons x xs)
  have r1: "read 1 (cl_buffer s) = Inr ([x], \<lparr>buf_data = whole, buf_pos = 1\<rparr>)"
    using assms Cons by (simp add: read_def)
  show ?thesis
  proof (cases "x = 0x03")
    case False
    with assms Cons r1 show ?thesis
      by (simp add: decodeHandshake_def len_def HEADER_BYTE_def dispatch_def)
  next
    case True
    show ?thesis
    proof (cases "length whole < 1 + 2 * HANDSHAKE_LENGTH")
      case True
      with assms Cons r1 \<open>x = 0x03\<close> show ?thesis
        by (simp add: decodeHandshake_def len_def HEADER_BYTE_def)
    next
      case False
      then have r2: "read HANDSHAKE_LENGTH \<lparr>buf_data = whole, buf_pos = 1\<rparr>
          = Inr (take HANDSHAKE_LENGTH (drop 1 whole), \<lparr>buf_data = whole, buf_pos = 1 + HANDSHAKE_LENGTH\<rparr>)"
        by (simp add: read_def)
      from False have r3: "read HANDSHAKE_LENGTH \<lparr>buf_data = whole, buf_pos = 1 + HANDSHAKE_LENGTH\<rparr>
          = Inr (take HANDSHAKE_LENGTH (drop (1 + HANDSHAKE_LENGTH) whole),
                 \<lparr>buf_data = whole, buf_pos = 1 + 2 * HANDSHAKE_LENGTH\<rparr>)"
        by (simp add: read_def)
      from False have nl: "\<not> len \<lparr>buf_data = whole, buf_pos = 1\<rparr> < HANDSHAKE_LENGTH * 2 + 1"
        by (simp add: len_def)
      have h: "hd whole = 0x03" "whole \<noteq> []" using Cons True by simp_all
      have l1: "\<not> len (cl_buffer s) < 1" using assms Cons by (simp add: len_def)
      show ?thesis
        unfolding decodeHandshake_def
        using l1 r1 r2 r3 nl h False True
        by (simp add: HEADER_BYTE_def dispatch_def transport_write_def consume_def del: One_nat_def)
    qed
  qed
qed


text \<open>
  C1: in the handshake state, with \<open>whole\<close> the bytes received so far, the client
  dispatches a handshake failure exactly when there is a leading byte and it is not
  \<open>0x03\<close>, or when \<open>1 + 1536 + 1536\<close> bytes are held and the second block of 1536 bytes
  differs from its own handshake; when that many bytes are held and both checks pass it
  writes the first block back and dispatches the handshake success; with fewer bytes and
  a correct leading byte (or no byte at all) it writes nothing, dispatches nothing and
  keeps the bytes.  Nothing is written to the peer except on success.
\<close>

theorem client_handshake_decision:
  assumes "cl_state s = HANDSHAKE" and "whole = buf_data (cl_buffer s) @ bs"
  shows "\<exists>s'. dataReceived base bs s = Inr s'
     \<and> ((\<exists>msg. cl_dispatched s' = cl_dispatched s @ [HANDSHAKE_FAILURE msg]) \<longleftrightarrow>
          whole \<noteq> [] \<and>
          (hd whole \<noteq> 0x03
           \<or> (1 + HANDSHAKE_LENGTH + HANDSHAKE_LENGTH \<le> length whole
               \<and> take HANDSHAKE_LENGTH (drop (1 + HANDSHAKE_LENGTH) whole) \<noteq> cl_my_handshake s)))
     \<and> (1 + HANDSHAKE_LENGTH + HANDSHAKE_LENGTH \<le> length whole \<and> hd whole = 0x03
          \<and> take HANDSHAKE_LENGTH (drop (1 + HANDSHAKE_LENGTH) whole) = cl_my_handshake s \<longrightarrow>
          cl_written s' = cl_written s @ [take HANDSHAKE_LENGTH (drop 1 whole)]
          \<and> cl_dispatched s' = cl_dispatched s @ [HANDSHAKE_SUCCESS])
     \<and> (length whole < 1 + HANDSHAKE_LENGTH + HANDSHAKE_LENGTH \<and> (whole = [] \<or> hd whole = 0x03) \<longrightarrow>
          cl_written s' = cl_written s \<and> cl_dispatched s' = cl_dispatched s
          \<and> buf_data (cl_buffer s') = whole)
     \<and> (cl_written s' \<noteq> cl_written s \<longrightarrow> cl_dispatched s' = cl_dispatched s @ [HANDSHAKE_SUCCESS])"
proof -
  let ?s1 = "s\<lparr>cl_buffer := \<lparr>buf_data = whole, buf_pos = 0\<rparr>\<rparr>"
  have d: "dataReceived base bs s = decodeHandshake ?s1"
    using assms by (simp add: dataReceived_handshake)
  have b: "cl_buffer ?s1 = \<lparr>buf_data = whole, buf_pos = 0\<rparr>" by simp
  note c = decodeHandshake_start[OF b]
  have l0: "0 < HANDSHAKE_LENGTH" by (simp add: HANDSHAKE_LENGTH_def)
  consider (empty) "whole = []"
    | (bad) "whole \<noteq> []" "hd whole \<noteq> 0x03"
    | (short) "whole \<noteq> []" "hd whole = 0x03" "length whole < 1 + 2 * HANDSHAKE_LENGTH"
    | (mismatch) "whole \<noteq> []" "hd whole = 0x03" "\<not> length whole < 1 + 2 * HANDSHAKE_LENGTH"
        "take HANDSHAKE_LENGTH (drop (1 + HANDSHAKE_LENGTH) whole) \<noteq> cl_my_handshake s"
    | (echo) "whole \<noteq> []" "hd whole = 0x03" "\<not> length whole < 1 + 2 * HANDSHAKE_LENGTH"
        "take HANDSHAKE_LENGTH (drop (1 + HANDSHAKE_LENGTH) whole) = cl_my_handshake s"
    by blast
  then show ?thesis
  proof cases
    case empty
    with c d l0 show ?thesis by simp
  next
    case bad
    with c d l0 show ?thesis by simp
  next
    case short
    with c d l0 show ?thesis by simp
  next
    case mismatch
    with c d l0 show ?thesis by simp
  next
    case echo
    with c d l0 show ?thesis by simp
  qed
qed


theorem client_handshake_decision_witness:
  "cl_state waiting_client = HANDSHAKE
   \<and> 1 + HANDSHAKE_LENGTH + HANDSHAKE_LENGTH \<le> length (3 # peer_bytes @ my_bytes)
   \<and> hd (3 # peer_bytes @ my_bytes) = 0x03
   \<and> take HANDSHAKE_LENGTH (drop (1 + HANDSHAKE_LENGTH) (3 # peer_bytes @ my_bytes))
       = cl_my_handshake waiting_client
   \<and> (\<exists>s'. dataReceived no_base (3 # peer_bytes @ my_bytes) waiting_client = Inr s'
          \<and> cl_written s' = [HEADER_BYTE, my_bytes, peer_bytes]
          \<and> cl_dispatched s' = [HANDSHAKE_SUCCESS])"
proof -
  have lp: "length peer_bytes = HANDSHAKE_LENGTH" and lm: "length my_bytes = HANDSHAKE_LENGTH"
    by (simp_all add: peer_bytes_def my_bytes_def HANDSHAKE_LENGTH_def)
  have st: "cl_state waiting_client = HANDSHAKE"
    and my: "cl_my_handshake waiting_client = my_bytes"
    and wr: "cl_written waiting_client = [HEADER_BYTE, my_bytes]"
    and di: "cl_dispatched waiting_client = []"
    and bu: "buf_data (cl_buffer waiting_client) = []"
    by (simp_all add: waiting_client_def new_buffer_def)
  have w: "3 # peer_bytes @ my_bytes = buf_data (cl_buffer waiting_client) @ (3 # peer_bytes @ my_bytes)"
    by (simp add: bu)
  have ln: "1 + HANDSHAKE_LENGTH + HANDSHAKE_LENGTH \<le> length (3 # peer_bytes @ my_bytes)"
    by (simp add: lp lm)
  have hd3: "hd (3 # peer_bytes @ my_bytes) = 0x03" by simp
  have echo: "take HANDSHAKE_LENGTH (drop (1 + HANDSHAKE_LENGTH) (3 # peer_bytes @ my_bytes))
       = cl_my_handshake waiting_client"
    by (simp add: my lp[symmetric] lm[symmetric] del: One_nat_def) (simp add: lp lm)
  have first: "take HANDSHAKE_LENGTH (drop 1 (3 # peer_bytes @ my_bytes)) = peer_bytes"
    by (simp add: lp[symmetric])
  from client_handshake_decision[OF st w, of no_base]
  obtain s' where r: "dataReceived no_base (3 # peer_bytes @ my_bytes) waiting_client = Inr s'"
    and ok: "1 + HANDSHAKE_LENGTH + HANDSHAKE_LENGTH \<le> length (3 # peer_bytes @ my_bytes)
          \<and> hd (3 # peer_bytes @ my_bytes) = 0x03
          \<and> take HANDSHAKE_LENGTH (drop (1 + HANDSHAKE_LENGTH) (3 # peer_bytes @ my_bytes))
              = cl_my_handshake waiting_client \<longrightarrow>
          cl_written s' = cl_written waiting_client
                            @ [take HANDSHAKE_LENGTH (drop 1 (3 # peer_bytes @ my_bytes))]
          \<and> cl_dispatched s' = cl_dispatched waiting_client @ [HANDSHAKE_SUCCESS]"
    by blast
  from ok ln hd3 echo have "cl_written s' = [HEADER_BYTE, my_bytes, peer_bytes]"
    and "cl_dispatched s' = [HANDSHAKE_SUCCESS]"
    by (simp_all only: first wr di append.simps simp_thms)
  with r st ln hd3 echo show ?thesis by blast
qed

section \<open>Properties of the frame decoder\<close>

text \<open>
  C2 asks that a channel resumed inside a frame is given no more than what is left of
  the buffer, of the body and of the frame partly received.  The decoder's bound leaves
  the received part of the frame out: resumed with 100 bytes of a 128-byte frame
  received, it drains 128 bytes where 28 complete the frame.  The header byte \<open>0xC3\<close>
  of the next chunk goes into the body, and the channel is unpinned with the buffer's
  cursor inside the second frame, not before a header as \<open>readFrame\<close> documents.
\<close>

theorem resumed_frame_drains_past_boundary:
  "getBytesAvailableForChannel resumed_decoder (dec_channels resumed_decoder 3) = 128
   \<and> frame_boundary_bound resumed_decoder (dec_channels resumed_decoder 3) = 28
   \<and> readFrame resumed_decoder =
       Inr \<lparr>dec_buffer = \<lparr>buf_data = replicate 28 1 @ [0xC3] @ replicate 121 1, buf_pos = 128\<rparr>,
            currentChannel = None,
            dec_channels = (\<lambda>c. untouched_channel)
              (3 := \<lparr>channel_header = video_header_300, bodyRemaining = 72, frames = 1,
                     bodyBuffer = replicate 100 1 @ replicate 28 1 @ [0xC3] @ replicate 99 1,
                     completed = []\<rparr>),
            dec_frameSize = 128\<rparr>"
  by (simp add: getBytesAvailableForChannel_def frame_boundary_bound_def readFrame_def
      resumed_decoder_def partial_channel_def remaining_def read_def channel_write_def
      complete_frames_def Let_def)

text \<open>
  The pinned state is the one \<open>readFrame\<close> leaves when the first 100 bytes of the body
  are all the buffer holds; consuming the buffer, receiving the next 150 bytes and
  setting the cursor to the start of the buffer gives the decoder above.
\<close>

lemma pinned_mid_frame_reached:
  "readFrame started_decoder =
     Inr (resumed_decoder\<lparr>dec_buffer := \<lparr>buf_data = replicate 100 1, buf_pos = 100\<rparr>\<rparr>)
   \<and> (let d = resumed_decoder\<lparr>dec_buffer := consume \<lparr>buf_data = replicate 100 1, buf_pos = 100\<rparr>\<rparr>;
           d' = decoder_dataReceived (replicate 28 1 @ [0xC3] @ replicate 121 1) d
       in d'\<lparr>dec_buffer := seek 0 (dec_buffer d')\<rparr>) = resumed_decoder"
  by (simp add: getBytesAvailableForChannel_def readFrame_def started_decoder_def
      resumed_decoder_def partial_channel_def untouched_channel_def remaining_def read_def
      channel_write_def complete_frames_def Let_def consume_def decoder_dataReceived_def
      seek_end_def seek_def write_bytes_def)


section \<open>Properties of the frame encoder\<close>

lemma read_short_of:
  "int (remaining b) < n \<Longrightarrow> read (nat n) b = Inl EOFError"
  by (auto simp: read_def remaining_def)

lemma seek_tell: "seek (tell b) b = b"
  by (simp add: seek_def tell_def)

lemma getData_short:
  assumes "channelContext e c = Some ctx" and "ctx_channel ctx = c"
    and "int (remaining (ctx_buffer ctx)) < n"
  shows "getData (nat n) c e =
     Inr (None, e\<lparr>scheduler := sched_deactivateChannel c (scheduler e),
                   channelContext := (channelContext e)(c \<mapsto> ctx\<lparr>ctx_active := False\<rparr>)\<rparr>)"
proof -
  have d: "c \<in> dom (channelContext e)" using assms(1) by auto
  show ?thesis
    using assms d
    by (simp add: getData_def read_short_of seek_tell deactivateChannel_def Let_def)
qed

text \<open>
  C5, amended: on an encoder tick, if the buffer of the selected channel's context holds
  fewer bytes than the frame fill \<open>min(channel.bodyRemaining, frameSize)\<close>, the encoder
  writes nothing for that channel (the consumer receives at most what the output buffer
  already held) and the pending bytes stay in the context's buffer, but the context does
  not stay active: it is marked inactive and the channel is taken out of the scheduler.
  The retry comes with the next write to the context, which marks it active and puts
  the channel back into the scheduler.
\<close>

theorem encoder_defers_by_deactivating:
  assumes "getNextChannel (scheduler e) = (Some c, sch)"
    and "channelContext e c = Some ctx" and "ctx_channel ctx = c"
    and "int (remaining (ctx_buffer ctx)) < min (bodyRemaining (enc_channels e c)) (enc_frameSize e)"
  shows "\<exists>e'. encoder_encode diffHeaders encodeHeader e = Inr e'
     \<and> channelContext e' = (channelContext e)(c \<mapsto> ctx\<lparr>ctx_active := False\<rparr>)
     \<and> scheduler e' = sched_deactivateChannel c sch
     \<and> c \<notin> set (scheduler e')
     \<and> enc_consumer e' = enc_consumer e
          @ (if len (enc_buffer e) > 0 then [getvalue (enc_buffer e)] else [])
     \<and> (len (enc_buffer e) = 0 \<longrightarrow> enc_buffer e' = enc_buffer e)
     \<and> (\<exists>e''. context_write c bs e' = Inr e''
            \<and> channelContext e'' c
                = Some (ctx\<lparr>ctx_buffer := append_bytes bs (ctx_buffer ctx), ctx_active := True\<rparr>)
            \<and> c \<in> set (scheduler e''))"
proof -
  let ?e0 = "e\<lparr>scheduler := sch, currentContext := Some c\<rparr>"
  let ?n = "min (bodyRemaining (enc_channels e c)) (enc_frameSize e)"
  have n1: "\<not> ?n < 1" using assms(4) by linarith
  have m: "getMinimumFrameSize ?e0 (enc_channels ?e0 (ctx_channel ctx)) = Inr ?n"
    using n1 assms(3) by (simp add: getMinimumFrameSize_def Let_def)
  have c0: "channelContext ?e0 c = Some ctx" using assms(2) by simp
  have g: "getData (nat ?n) c ?e0 =
     Inr (None, ?e0\<lparr>scheduler := sched_deactivateChannel c (scheduler ?e0),
                   channelContext := (channelContext ?e0)(c \<mapsto> ctx\<lparr>ctx_active := False\<rparr>)\<rparr>)"
    by (rule getData_short[OF c0 assms(3) assms(4)])
  have w: "writeFrame diffHeaders encodeHeader ?e0 =
     Inr (?e0\<lparr>scheduler := sched_deactivateChannel c sch,
               channelContext := (channelContext e)(c \<mapsto> ctx\<lparr>ctx_active := False\<rparr>)\<rparr>)"
    using m g c0 by (simp add: writeFrame_def)
  show ?thesis
    using assms(1,2,3) w
    by (auto simp: encoder_encode_def sched_deactivateChannel_def truncate0_def len_def
        context_write_def activateChannel_def sched_activateChannel_def Let_def)
qed

text \<open>
  C5, as the claim states it, fails: the context of channel 3 is active and holds 10
  bytes, fewer than the frame fill of 128; after the tick the context is not active and
  the scheduler no longer holds the channel.
\<close>

theorem starved_context_is_deactivated:
  "ctx_active starved_context
   \<and> channelContext starved_encoder 3 = Some starved_context
   \<and> scheduler starved_encoder = [3]
   \<and> encoder_encode newer_header no_header_bytes starved_encoder
       = Inr (starved_encoder\<lparr>scheduler := [], currentContext := Some 3,
                channelContext := [3 \<mapsto> starved_context\<lparr>ctx_active := False\<rparr>]\<rparr>)"
proof -
  have c: "channelContext (starved_encoder\<lparr>scheduler := [3], currentContext := Some 3\<rparr>) 3
      = Some starved_context"
    by (simp add: starved_encoder_def)
  have k: "ctx_channel starved_context = 3" by (simp add: starved_context_def)
  have r: "int (remaining (ctx_buffer starved_context)) < 128"
    by (simp add: starved_context_def remaining_def)
  have m: "getMinimumFrameSize (starved_encoder\<lparr>scheduler := [3], currentContext := Some 3\<rparr>)
             partial_channel = Inr 128"
    by (simp add: getMinimumFrameSize_def starved_encoder_def partial_channel_def)
  note g = getData_short[OF c k r]
  have w: "writeFrame newer_header no_header_bytes
             (starved_encoder\<lparr>scheduler := [3], currentContext := Some 3\<rparr>)
      = Inr (starved_encoder\<lparr>scheduler := [], currentContext := Some 3,
                channelContext := [3 \<mapsto> starved_context\<lparr>ctx_active := False\<rparr>]\<rparr>)"
    using c m g k
    by (simp add: writeFrame_def sched_deactivateChannel_def starved_encoder_def)
  have a: "ctx_active starved_context" by (simp add: starved_context_def)
  have s: "scheduler starved_encoder = [3]"
    and c0: "channelContext starved_encoder 3 = Some starved_context"
    and b: "len (enc_buffer starved_encoder) = 0"
    by (simp_all add: starved_encoder_def len_def new_buffer_def)
  have e: "encoder_encode newer_header no_header_bytes starved_encoder
       = Inr (starved_encoder\<lparr>scheduler := [], currentContext := Some 3,
                channelContext := [3 \<mapsto> starved_context\<lparr>ctx_active := False\<rparr>]\<rparr>)"
    using s c0 w b by (simp add: encoder_encode_def getNextChannel_def len_def)
  from a s c0 e show ?thesis by simp
qed

theorem encoder_defers_by_deactivating_witness:
  "getNextChannel (scheduler starved_encoder) = (Some 3, [3])
   \<and> channelContext starved_encoder 3 = Some starved_context
   \<and> ctx_channel starved_context = 3
   \<and> int (remaining (ctx_buffer starved_context))
       < min (bodyRemaining (enc_channels starved_encoder 3)) (enc_frameSize starved_encoder)
   \<and> (\<exists>e'. encoder_encode newer_header no_header_bytes starved_encoder = Inr e'
         \<and> channelContext e' 3 = Some (starved_context\<lparr>ctx_active := False\<rparr>)
         \<and> scheduler e' = []
         \<and> enc_consumer e' = [])"
proof -
  have h1: "getNextChannel (scheduler starved_encoder) = (Some 3, [3])"
    by (simp add: starved_encoder_def getNextChannel_def)
  have h2: "channelContext starved_encoder 3 = Some starved_context"
    by (simp add: starved_encoder_def)
  have h3: "ctx_channel starved_context = 3" by (simp add: starved_context_def)
  have h4: "int (remaining (ctx_buffer starved_context))
       < min (bodyRemaining (enc_channels starved_encoder 3)) (enc_frameSize starved_encoder)"
    by (simp add: starved_context_def starved_encoder_def partial_channel_def remaining_def)
  have b: "len (enc_buffer starved_encoder) = 0" "enc_consumer starved_encoder = []"
    by (simp_all add: starved_encoder_def len_def new_buffer_def)
  from encoder_defers_by_deactivating[OF h1 h2 h3 h4, of newer_header no_header_bytes "[]"]
  obtain e' where "encoder_encode newer_header no_header_bytes starved_encoder = Inr e'"
    and "channelContext e' = (channelContext starved_encoder)(3 \<mapsto> starved_context\<lparr>ctx_active := False\<rparr>)"
    and "scheduler e' = sched_deactivateChannel 3 [3]"
    and "enc_consumer e' = enc_consumer starved_encoder
          @ (if len (enc_buffer starved_encoder) > 0 then [getvalue (enc_buffer starved_encoder)] else [])"
    by blast
  then have "encoder_encode newer_header no_header_bytes starved_encoder = Inr e'
         \<and> channelContext e' 3 = Some (starved_context\<lparr>ctx_active := False\<rparr>)
         \<and> scheduler e' = []
         \<and> enc_consumer e' = []"
    by (simp add: b sched_deactivateChannel_def)
  with h1 h2 h3 h4 show ?thesis by blast
qed

section \<open>The round trip of the event codec, proved\<close>

lemma write_uint_ok:
  "0 \<le> v \<Longrightarrow> v < 2 ^ (8 * k) \<Longrightarrow>
   write_uint k v \<lparr>buf_data = d, buf_pos = length d\<rparr>
     = Inr \<lparr>buf_data = d @ be_bytes k v, buf_pos = length d + k\<rparr>"
  by (simp add: write_uint_def write_bytes_def length_be_bytes)

lemma write_sint_ok:
  "- (2 ^ (8 * k - 1)) \<le> v \<Longrightarrow> v < 2 ^ (8 * k - 1) \<Longrightarrow>
   write_sint k v \<lparr>buf_data = d, buf_pos = length d\<rparr>
     = Inr \<lparr>buf_data = d @ be_bytes k v, buf_pos = length d + k\<rparr>"
  by (simp add: write_sint_def write_bytes_def length_be_bytes)

lemma tee_Inr_simp: "type_error_as_encode_error (Inr x) = Inr x"
  by (simp add: type_error_as_encode_error_def)

lemma map_of_TYPE_MAP:
  "map_of TYPE_MAP FRAME_SIZE = Some FrameSizeC"
  "map_of TYPE_MAP BYTES_READ = Some BytesReadC"
  "map_of TYPE_MAP CONTROL = Some ControlEventC"
  "map_of TYPE_MAP DOWNSTREAM_BANDWIDTH = Some DownstreamBandwidthC"
  "map_of TYPE_MAP UPSTREAM_BANDWIDTH = Some UpstreamBandwidthC"
  "map_of TYPE_MAP NOTIFY = Some NotifyC"
  "map_of TYPE_MAP INVOKE = Some InvokeC"
  "map_of TYPE_MAP AUDIO_DATA = Some AudioDataC"
  "map_of TYPE_MAP VIDEO_DATA = Some VideoDataC"
  by (simp_all add: TYPE_MAP_def FRAME_SIZE_def BYTES_READ_def CONTROL_def
      DOWNSTREAM_BANDWIDTH_def UPSTREAM_BANDWIDTH_def NOTIFY_def INVOKE_def AUDIO_DATA_def
      VIDEO_DATA_def)

lemma find_TYPE_MAP:
  "find (\<lambda>(t, c). c = FrameSizeC) TYPE_MAP = Some (FRAME_SIZE, FrameSizeC)"
  "find (\<lambda>(t, c). c = BytesReadC) TYPE_MAP = Some (BYTES_READ, BytesReadC)"
  "find (\<lambda>(t, c). c = ControlEventC) TYPE_MAP = Some (CONTROL, ControlEventC)"
  "find (\<lambda>(t, c). c = DownstreamBandwidthC) TYPE_MAP = Some (DOWNSTREAM_BANDWIDTH, DownstreamBandwidthC)"
  "find (\<lambda>(t, c). c = UpstreamBandwidthC) TYPE_MAP = Some (UPSTREAM_BANDWIDTH, UpstreamBandwidthC)"
  "find (\<lambda>(t, c). c = NotifyC) TYPE_MAP = Some (NOTIFY, NotifyC)"
  "find (\<lambda>(t, c). c = InvokeC) TYPE_MAP = Some (INVOKE, InvokeC)"
  "find (\<lambda>(t, c). c = AudioDataC) TYPE_MAP = Some (AUDIO_DATA, AudioDataC)"
  "find (\<lambda>(t, c). c = VideoDataC) TYPE_MAP = Some (VIDEO_DATA, VideoDataC)"
  by (simp_all add: TYPE_MAP_def)

lemma ulong_roundtrip:
  assumes "0 \<le> v" "v < 2 ^ 32"
  shows "write_ulong v (new_buffer []) = Inr \<lparr>buf_data = be_bytes 4 v, buf_pos = 4\<rparr>"
    and "read_ulong (new_buffer (be_bytes 4 v)) = Inr (v, \<lparr>buf_data = be_bytes 4 v, buf_pos = 4\<rparr>)"
  using assms write_uint_ok[of v 4 "[]"] read_uint_at[of v 4 "[]" "[]"]
  by (simp_all add: write_ulong_def read_ulong_def new_buffer_def)

lemma at_eof_end: "length d \<le> p \<Longrightarrow> at_eof \<lparr>buf_data = d, buf_pos = p\<rparr>"
  by (simp add: at_eof_def)

lemma roundtrip_FrameSize:
  assumes "0 \<le> v" "v < 2 ^ 32"
  shows "encode wr (FrameSize (Some v)) = Inr (FRAME_SIZE, be_bytes 4 v)"
    and "decode rd FRAME_SIZE (be_bytes 4 v) = Some (Inr (FrameSize (Some v)))"
  using ulong_roundtrip[OF assms]
  by (simp_all add: encode_def decode_def find_TYPE_MAP map_of_TYPE_MAP tee_Inr_simp
      getvalue_def at_eof_end length_be_bytes)

lemma roundtrip_BytesRead:
  assumes "0 \<le> v" "v < 2 ^ 32"
  shows "encode wr (BytesRead (Some v)) = Inr (BYTES_READ, be_bytes 4 v)"
    and "decode rd BYTES_READ (be_bytes 4 v) = Some (Inr (BytesRead (Some v)))"
  using ulong_roundtrip[OF assms]
  by (simp_all add: encode_def decode_def find_TYPE_MAP map_of_TYPE_MAP tee_Inr_simp
      getvalue_def at_eof_end length_be_bytes)

lemma roundtrip_DownstreamBandwidth:
  assumes "0 \<le> v" "v < 2 ^ 32"
  shows "encode wr (DownstreamBandwidth (Some v)) = Inr (DOWNSTREAM_BANDWIDTH, be_bytes 4 v)"
    and "decode rd DOWNSTREAM_BANDWIDTH (be_bytes 4 v) = Some (Inr (DownstreamBandwidth (Some v)))"
  using ulong_roundtrip[OF assms]
  by (simp_all add: encode_def decode_def find_TYPE_MAP map_of_TYPE_MAP tee_Inr_simp
      getvalue_def at_eof_end length_be_bytes)

lemma roundtrip_UpstreamBandwidth:
  assumes "0 \<le> v" "v < 2 ^ 32" "0 \<le> x" "x < 2 ^ 8"
  shows "encode wr (UpstreamBandwidth (Some v) (Some x))
           = Inr (UPSTREAM_BANDWIDTH, be_bytes 4 v @ be_bytes 1 x)"
    and "decode rd UPSTREAM_BANDWIDTH (be_bytes 4 v @ be_bytes 1 x)
           = Some (Inr (UpstreamBandwidth (Some v) (Some x)))"
proof -
  define vb where "vb = be_bytes 4 v"
  define xb where "xb = be_bytes 1 x"
  have lv: "length vb = 4" and lx: "length xb = 1"
    by (simp_all add: vb_def xb_def length_be_bytes del: be_bytes.simps)
  have w1: "write_ulong v (new_buffer []) = Inr \<lparr>buf_data = vb, buf_pos = 4\<rparr>"
    unfolding vb_def using assms(1,2) by (rule ulong_roundtrip(1))
  have "write_uint 1 x \<lparr>buf_data = vb, buf_pos = length vb\<rparr>
      = Inr \<lparr>buf_data = vb @ be_bytes 1 x, buf_pos = length vb + 1\<rparr>"
    by (rule write_uint_ok) (use assms in simp_all)
  then have w2: "write_uchar x \<lparr>buf_data = vb, buf_pos = 4\<rparr>
      = Inr \<lparr>buf_data = vb @ xb, buf_pos = 5\<rparr>"
    by (simp add: write_uchar_def lv xb_def del: be_bytes.simps)
  have "read_uint 4 \<lparr>buf_data = [] @ be_bytes 4 v @ xb, buf_pos = length ([] :: byte list)\<rparr>
      = Inr (v, \<lparr>buf_data = [] @ be_bytes 4 v @ xb, buf_pos = length ([] :: byte list) + 4\<rparr>)"
    by (rule read_uint_at) (use assms in simp_all)
  then have r1: "read_ulong (new_buffer (vb @ xb)) = Inr (v, \<lparr>buf_data = vb @ xb, buf_pos = 4\<rparr>)"
    by (simp add: read_ulong_def new_buffer_def vb_def del: be_bytes.simps)
  have "read_uint 1 \<lparr>buf_data = vb @ be_bytes 1 x @ [], buf_pos = length vb\<rparr>
      = Inr (x, \<lparr>buf_data = vb @ be_bytes 1 x @ [], buf_pos = length vb + 1\<rparr>)"
    by (rule read_uint_at) (use assms in simp_all)
  then have r2: "read_uchar \<lparr>buf_data = vb @ xb, buf_pos = 4\<rparr>
      = Inr (x, \<lparr>buf_data = vb @ xb, buf_pos = 5\<rparr>)"
    by (simp add: read_uchar_def lv xb_def del: be_bytes.simps)
  have "encode wr (UpstreamBandwidth (Some v) (Some x)) = Inr (UPSTREAM_BANDWIDTH, vb @ xb)"
    by (simp add: encode_def find_TYPE_MAP w1 w2 tee_Inr_simp getvalue_def)
  then show "encode wr (UpstreamBandwidth (Some v) (Some x))
           = Inr (UPSTREAM_BANDWIDTH, be_bytes 4 v @ be_bytes 1 x)"
    by (simp only: vb_def xb_def)
  have "decode rd UPSTREAM_BANDWIDTH (vb @ xb) = Some (Inr (UpstreamBandwidth (Some v) (Some x)))"
    by (simp add: decode_def map_of_TYPE_MAP r1 r2 at_eof_end lv lx)
  then show "decode rd UPSTREAM_BANDWIDTH (be_bytes 4 v @ be_bytes 1 x)
           = Some (Inr (UpstreamBandwidth (Some v) (Some x)))"
    by (simp only: vb_def xb_def)
qed

lemma roundtrip_streaming:
  shows "encode wr (AudioData (Some bs)) = Inr (AUDIO_DATA, bs)"
    and "decode rd AUDIO_DATA bs = Some (Inr (AudioData (Some bs)))"
    and "encode wr (VideoData (Some bs)) = Inr (VIDEO_DATA, bs)"
    and "decode rd VIDEO_DATA bs = Some (Inr (VideoData (Some bs)))"
  by (simp_all add: encode_def decode_def find_TYPE_MAP map_of_TYPE_MAP getvalue_def
      new_buffer_def write_bytes_def read_all_def at_eof_def)


lemma read_sint_at4:
  assumes "- (2 ^ 31) \<le> v" "v < 2 ^ 31" "length pre = p" "d = pre @ be_bytes 4 v @ post"
  shows "read_long \<lparr>buf_data = d, buf_pos = p\<rparr> = Inr (v, \<lparr>buf_data = d, buf_pos = p + 4\<rparr>)"
  using read_sint_at[of 4 v pre post] assms by (simp add: read_long_def)

lemma write_sint_at4:
  assumes "- (2 ^ 31) \<le> v" "v < 2 ^ 31" "length d = p"
  shows "write_long v \<lparr>buf_data = d, buf_pos = p\<rparr>
           = Inr \<lparr>buf_data = d @ be_bytes 4 v, buf_pos = p + 4\<rparr>"
  using write_sint_ok[of 4 v d] assms by (simp add: write_long_def)

lemma roundtrip_ControlEvent:
  assumes "0 \<le> t" "t < 2 ^ 16"
    and "- (2 ^ 31) \<le> v1" "v1 < 2 ^ 31" "- (2 ^ 31) \<le> v2" "v2 < 2 ^ 31"
    and "- (2 ^ 31) \<le> v3" "v3 < 2 ^ 31"
  shows "encode wr (ControlEvent (Some t) v1 v2 v3)
           = Inr (CONTROL, be_bytes 2 t @ be_bytes 4 v1 @ be_bytes 4 v2 @ be_bytes 4 v3)"
    and "decode rd CONTROL (be_bytes 2 t @ be_bytes 4 v1 @ be_bytes 4 v2 @ be_bytes 4 v3)
           = Some (Inr (ControlEvent (Some t) v1 v2 v3))"
proof -
  define tb where "tb = be_bytes 2 t"
  define b1 where "b1 = be_bytes 4 v1"
  define b2 where "b2 = be_bytes 4 v2"
  define b3 where "b3 = be_bytes 4 v3"
  have l: "length tb = 2" "length b1 = 4" "length b2 = 4" "length b3 = 4"
    by (simp_all add: tb_def b1_def b2_def b3_def length_be_bytes del: be_bytes.simps)
  have w0: "write_short t (new_buffer []) = Inr \<lparr>buf_data = tb, buf_pos = 2\<rparr>"
    using write_uint_ok[of t 2 "[]"] assms(1,2)
    by (simp add: write_short_def new_buffer_def tb_def del: be_bytes.simps)
  have w1: "write_long v1 \<lparr>buf_data = tb, buf_pos = 2\<rparr> = Inr \<lparr>buf_data = tb @ b1, buf_pos = 6\<rparr>"
    using write_sint_at4[OF assms(3,4), of tb 2] l by (simp add: b1_def del: be_bytes.simps)
  have w2: "write_long v2 \<lparr>buf_data = tb @ b1, buf_pos = 6\<rparr>
      = Inr \<lparr>buf_data = tb @ b1 @ b2, buf_pos = 10\<rparr>"
    using write_sint_at4[OF assms(5,6), of "tb @ b1" 6] l by (simp add: b2_def del: be_bytes.simps)
  have w3: "write_long v3 \<lparr>buf_data = tb @ b1 @ b2, buf_pos = 10\<rparr>
      = Inr \<lparr>buf_data = tb @ b1 @ b2 @ b3, buf_pos = 14\<rparr>"
    using write_sint_at4[OF assms(7,8), of "tb @ b1 @ b2" 10] l
    by (simp add: b3_def del: be_bytes.simps)
  let ?d = "tb @ b1 @ b2 @ b3"
  have r0: "read_short (new_buffer ?d) = Inr (t, \<lparr>buf_data = ?d, buf_pos = 2\<rparr>)"
    using read_uint_at[of t 2 "[]" "b1 @ b2 @ b3"] assms(1,2)
    by (simp add: read_short_def new_buffer_def tb_def del: be_bytes.simps)
  have r1: "read_long \<lparr>buf_data = ?d, buf_pos = 2\<rparr> = Inr (v1, \<lparr>buf_data = ?d, buf_pos = 2 + 4\<rparr>)"
    by (rule read_sint_at4[OF assms(3,4), of tb _ _ "b2 @ b3"]) (simp_all add: l b1_def)
  have r2: "read_long \<lparr>buf_data = ?d, buf_pos = 6\<rparr> = Inr (v2, \<lparr>buf_data = ?d, buf_pos = 6 + 4\<rparr>)"
    by (rule read_sint_at4[OF assms(5,6), of "tb @ b1" _ _ "b3"]) (simp_all add: l b2_def)
  have r3: "read_long \<lparr>buf_data = ?d, buf_pos = 10\<rparr> = Inr (v3, \<lparr>buf_data = ?d, buf_pos = 10 + 4\<rparr>)"
    by (rule read_sint_at4[OF assms(7,8), of "tb @ b1 @ b2" _ _ "[]"]) (simp_all add: l b3_def)
  have "encode wr (ControlEvent (Some t) v1 v2 v3) = Inr (CONTROL, ?d)"
    by (simp add: encode_def find_TYPE_MAP w0 w1 w2 w3 tee_Inr_simp getvalue_def)
  then show "encode wr (ControlEvent (Some t) v1 v2 v3)
           = Inr (CONTROL, be_bytes 2 t @ be_bytes 4 v1 @ be_bytes 4 v2 @ be_bytes 4 v3)"
    by (simp only: tb_def b1_def b2_def b3_def)
  have "decode rd CONTROL ?d = Some (Inr (ControlEvent (Some t) v1 v2 v3))"
    using r1 r2 r3 by (simp add: decode_def map_of_TYPE_MAP r0 at_eof_end l)
  then show "decode rd CONTROL (be_bytes 2 t @ be_bytes 4 v1 @ be_bytes 4 v2 @ be_bytes 4 v3)
           = Some (Inr (ControlEvent (Some t) v1 v2 v3))"
    by (simp only: tb_def b1_def b2_def b3_def)
qed


lemma write_elements_ok:
  "list_all (\<lambda>v. isl (wr v) = False) vs \<Longrightarrow>
   write_elements wr vs \<lparr>buf_data = d, buf_pos = length d\<rparr>
     = Inr \<lparr>buf_data = d @ concat (map (\<lambda>v. projr (wr v)) vs),
            buf_pos = length (d @ concat (map (\<lambda>v. projr (wr v)) vs))\<rparr>"
proof (induction vs arbitrary: d)
  case Nil
  then show ?case by simp
next
  case (Cons v vs)
  then obtain bs where bs: "wr v = Inr bs" by (cases "wr v") auto
  have "write_bytes bs \<lparr>buf_data = d, buf_pos = length d\<rparr>
      = \<lparr>buf_data = d @ bs, buf_pos = length (d @ bs)\<rparr>"
    by (simp add: write_bytes_def)
  with Cons.IH[of "d @ bs"] Cons.prems bs show ?case by simp
qed

lemma amf_codec_read:
  assumes "amf_codec wr rd norm" "isl (wr v) = False" "d = pre @ projr (wr v) @ post"
    "p = length pre"
  shows "rd \<lparr>buf_data = d, buf_pos = p\<rparr>
           = Inr (norm v, \<lparr>buf_data = d, buf_pos = p + length (projr (wr v))\<rparr>)"
    and "projr (wr v) \<noteq> []"
proof -
  from assms(2) obtain bs where bs: "wr v = Inr bs" by (cases "wr v") auto
  with assms(1) have "bs \<noteq> [] \<and>
        rd \<lparr>buf_data = pre @ bs @ post, buf_pos = length pre\<rparr>
          = Inr (norm v, \<lparr>buf_data = pre @ bs @ post, buf_pos = length pre + length bs\<rparr>)"
    unfolding amf_codec_def by blast
  with bs assms(3,4) show "rd \<lparr>buf_data = d, buf_pos = p\<rparr>
           = Inr (norm v, \<lparr>buf_data = d, buf_pos = p + length (projr (wr v))\<rparr>)"
    and "projr (wr v) \<noteq> []"
    by simp_all
qed

lemma read_elements_ok:
  assumes "amf_codec wr rd norm"
  shows "list_all (\<lambda>v. isl (wr v) = False) vs \<Longrightarrow>
   read_elements rd \<lparr>buf_data = pre @ concat (map (\<lambda>v. projr (wr v)) vs), buf_pos = length pre\<rparr> acc
     = Some (Inr (acc @ map norm vs,
                  \<lparr>buf_data = pre @ concat (map (\<lambda>v. projr (wr v)) vs),
                   buf_pos = length (pre @ concat (map (\<lambda>v. projr (wr v)) vs))\<rparr>))"
proof (induction vs arbitrary: pre acc)
  case Nil
  show ?case by (subst read_elements.simps) (simp add: at_eof_def)
next
  case (Cons v vs)
  let ?bs = "projr (wr v)"
  let ?rest = "concat (map (\<lambda>v. projr (wr v)) vs)"
  let ?d = "pre @ ?bs @ ?rest"
  from Cons.prems have e: "isl (wr v) = False" and r: "list_all (\<lambda>v. isl (wr v) = False) vs"
    by simp_all
  note a = amf_codec_read[OF assms e, of ?d pre ?rest "length pre"]
  have ne: "\<not> at_eof \<lparr>buf_data = ?d, buf_pos = length pre\<rparr>"
    using a(2) by (simp add: at_eof_def)
  have rd1: "rd \<lparr>buf_data = ?d, buf_pos = length pre\<rparr>
      = Inr (norm v, \<lparr>buf_data = ?d, buf_pos = length pre + length ?bs\<rparr>)"
    using a(1) by simp
  have ih: "read_elements rd \<lparr>buf_data = ?d, buf_pos = length pre + length ?bs\<rparr> (acc @ [norm v])
     = Some (Inr ((acc @ [norm v]) @ map norm vs,
                  \<lparr>buf_data = ?d, buf_pos = length ?d\<rparr>))"
    using Cons.IH[OF r, of "pre @ ?bs" "acc @ [norm v]"] by simp
  show ?case
    by (subst read_elements.simps) (simp add: ne rd1 ih)
qed

lemma roundtrip_notify:
  assumes "amf_codec wr rd norm" "list_all (\<lambda>v. isl (wr v) = False) (name # ident # argv)"
  shows "encode wr (Notify name ident argv)
           = Inr (NOTIFY, concat (map (\<lambda>v. projr (wr v)) (name # ident # argv)))"
    and "decode rd NOTIFY (concat (map (\<lambda>v. projr (wr v)) (name # ident # argv)))
           = Some (Inr (Notify (norm name) (norm ident) (map norm argv)))"
    and "encode wr (Invoke name ident argv)
           = Inr (INVOKE, concat (map (\<lambda>v. projr (wr v)) (name # ident # argv)))"
    and "decode rd INVOKE (concat (map (\<lambda>v. projr (wr v)) (name # ident # argv)))
           = Some (Inr (Invoke (norm name) (norm ident) (map norm argv)))"
proof -
  let ?n = "projr (wr name)" and ?i = "projr (wr ident)"
  let ?rest = "concat (map (\<lambda>v. projr (wr v)) argv)"
  let ?d = "?n @ ?i @ ?rest"
  from assms(2) have en: "isl (wr name) = False" and ei: "isl (wr ident) = False"
    and ea: "list_all (\<lambda>v. isl (wr v) = False) argv" and e2: "list_all (\<lambda>v. isl (wr v) = False) [name, ident]"
    by simp_all
  have w1: "write_elements wr [name, ident] (new_buffer [])
      = Inr \<lparr>buf_data = ?n @ ?i, buf_pos = length (?n @ ?i)\<rparr>"
    using write_elements_ok[OF e2, of "[]"] by (simp add: new_buffer_def)
  have w2: "write_elements wr argv \<lparr>buf_data = ?n @ ?i, buf_pos = length (?n @ ?i)\<rparr>
      = Inr \<lparr>buf_data = ?d, buf_pos = length ?d\<rparr>"
    using write_elements_ok[OF ea, of "?n @ ?i"] by simp
  show "encode wr (Notify name ident argv)
           = Inr (NOTIFY, concat (map (\<lambda>v. projr (wr v)) (name # ident # argv)))"
    and "encode wr (Invoke name ident argv)
           = Inr (INVOKE, concat (map (\<lambda>v. projr (wr v)) (name # ident # argv)))"
    using w1 w2 by (simp_all add: encode_def find_TYPE_MAP getvalue_def)
  have r1: "rd (new_buffer ?d) = Inr (norm name, \<lparr>buf_data = ?d, buf_pos = length ?n\<rparr>)"
    using amf_codec_read(1)[OF assms(1) en, of ?d "[]" "?i @ ?rest" 0]
    by (simp add: new_buffer_def)
  have r2: "rd \<lparr>buf_data = ?d, buf_pos = length ?n\<rparr>
      = Inr (norm ident, \<lparr>buf_data = ?d, buf_pos = length ?n + length ?i\<rparr>)"
    using amf_codec_read(1)[OF assms(1) ei, of ?d ?n ?rest "length ?n"] by simp
  have r3: "read_elements rd \<lparr>buf_data = ?d, buf_pos = length ?n + length ?i\<rparr> []
      = Some (Inr (map norm argv, \<lparr>buf_data = ?d, buf_pos = length ?d\<rparr>))"
    using read_elements_ok[OF assms(1) ea, of "?n @ ?i" "[]"] by simp
  show "decode rd NOTIFY (concat (map (\<lambda>v. projr (wr v)) (name # ident # argv)))
           = Some (Inr (Notify (norm name) (norm ident) (map norm argv)))"
    and "decode rd INVOKE (concat (map (\<lambda>v. projr (wr v)) (name # ident # argv)))
           = Some (Inr (Invoke (norm name) (norm ident) (map norm argv)))"
    using r1 r2 r3
    by (simp_all add: decode_def map_of_TYPE_MAP decode_notify_def at_eof_def)
qed

text \<open>
  The encodable domain leaves nothing out: an event that \<open>encode\<close> accepts is encodable.
\<close>

lemma write_elements_Inr:
  "write_elements wr vs b = Inr b' \<Longrightarrow> list_all (\<lambda>v. isl (wr v) = False) vs"
  by (induction vs arbitrary: b) (auto split: sum.splits)

lemma write_uint_Inr: "write_uint k v b = Inr b' \<Longrightarrow> 0 \<le> v \<and> v < 2 ^ (8 * k)"
  by (simp add: write_uint_def split: if_splits)

lemma write_sint_Inr:
  "write_sint k v b = Inr b' \<Longrightarrow> - (2 ^ (8 * k - 1)) \<le> v \<and> v < 2 ^ (8 * k - 1)"
  by (simp add: write_sint_def split: if_splits)

lemma encode_event_Inr_encodable:
  assumes "encode_event wr ev b = Inr b'"
  shows "encodable wr ev"
proof (cases ev)
  case (FrameSize x)
  with assms show ?thesis
    by (cases x) (auto simp: tee_Inr write_ulong_def dest: write_uint_Inr)
next
  case (BytesRead x)
  with assms show ?thesis
    by (cases x) (auto simp: tee_Inr write_ulong_def dest: write_uint_Inr)
next
  case (ControlEvent x v1 v2 v3)
  with assms show ?thesis
    by (cases x)
      (auto simp: tee_Inr ebind_Inr write_short_def write_long_def
        dest!: write_uint_Inr write_sint_Inr)
next
  case (DownstreamBandwidth x)
  with assms show ?thesis
    by (cases x) (auto simp: tee_Inr write_ulong_def dest: write_uint_Inr)
next
  case (UpstreamBandwidth x y)
  with assms show ?thesis
    by (cases x; cases y)
      (auto simp: tee_Inr ebind_Inr write_ulong_def write_uchar_def dest!: write_uint_Inr)
next
  case (Notify name ident argv)
  with assms show ?thesis
    by (auto simp: ebind_Inr split: sum.splits dest: write_elements_Inr)
next
  case (Invoke name ident argv)
  with assms show ?thesis
    by (auto simp: ebind_Inr split: sum.splits dest: write_elements_Inr)
next
  case (AudioData x)
  with assms show ?thesis by (cases x) auto
next
  case (VideoData x)
  with assms show ?thesis by (cases x) auto
qed

lemma encode_Inr_encodable: "encode wr ev = Inr x \<Longrightarrow> encodable wr ev"
  by (auto simp: encode_def ebind_Inr split: option.splits prod.splits
      dest: encode_event_Inr_encodable)

text \<open>
  C3: for every event of a class in the type map whose fields are in their encodable
  domains, \<open>encode\<close> succeeds and \<open>decode\<close>, given the datatype and the body \<open>encode\<close>
  produced, returns the event itself; for a notification or an invocation it returns
  the event with the AMF codec's normalisation applied to its name, id and arguments.
  The AMF codec is any writer and reader that satisfy \<open>amf_codec\<close>.
\<close>

theorem decode_encode_roundtrip:
  assumes "amf_codec wr rd norm" and "encodable wr ev"
  shows "\<exists>datatype body. encode wr ev = Inr (datatype, body)
           \<and> decode rd datatype body = Some (Inr (normalize norm ev))"
proof (cases ev)
  case (FrameSize x)
  with assms(2) show ?thesis by (cases x) (simp_all add: roundtrip_FrameSize)
next
  case (BytesRead x)
  with assms(2) show ?thesis by (cases x) (simp_all add: roundtrip_BytesRead)
next
  case (ControlEvent x v1 v2 v3)
  with assms(2) show ?thesis by (cases x) (simp_all add: roundtrip_ControlEvent)
next
  case (DownstreamBandwidth x)
  with assms(2) show ?thesis by (cases x) (simp_all add: roundtrip_DownstreamBandwidth)
next
  case (UpstreamBandwidth x y)
  with assms(2) obtain v z where xy: "x = Some v" "y = Some z"
    and b: "0 \<le> v" "v < 2 ^ 32" "0 \<le> z" "z < 2 ^ 8"
    by (cases x; cases y) simp_all
  from roundtrip_UpstreamBandwidth(1)[OF b, of wr] roundtrip_UpstreamBandwidth(2)[OF b, of rd]
  have "encode wr ev = Inr (UPSTREAM_BANDWIDTH, be_bytes 4 v @ be_bytes 1 z)
      \<and> decode rd UPSTREAM_BANDWIDTH (be_bytes 4 v @ be_bytes 1 z) = Some (Inr (normalize norm ev))"
    unfolding UpstreamBandwidth xy normalize.simps by blast
  then show ?thesis by blast
next
  case (Notify name ident argv)
  with assms(2) have e: "list_all (\<lambda>v. isl (wr v) = False) (name # ident # argv)" by simp
  from roundtrip_notify(1,2)[OF assms(1) e] Notify show ?thesis by simp
next
  case (Invoke name ident argv)
  with assms(2) have e: "list_all (\<lambda>v. isl (wr v) = False) (name # ident # argv)" by simp
  from roundtrip_notify(3,4)[OF assms(1) e] Invoke show ?thesis by simp
next
  case (AudioData x)
  with assms(2) show ?thesis by (cases x) (simp_all add: roundtrip_streaming)
next
  case (VideoData x)
  with assms(2) show ?thesis by (cases x) (simp_all add: roundtrip_streaming)
qed


lemma byte_codec: "amf_codec byte_writer byte_reader same"
  by (simp add: amf_codec_def byte_writer_def byte_reader_def same_def read_def)

theorem decode_encode_roundtrip_witness:
  "amf_codec byte_writer byte_reader same
   \<and> encodable byte_writer (Invoke 1 2 [3, 4])
   \<and> encode byte_writer (Invoke 1 2 [3, 4]) = Inr (INVOKE, [1, 2, 3, 4])
   \<and> decode byte_reader INVOKE [1, 2, 3, 4] = Some (Inr (Invoke 1 2 [3, 4]))"
proof -
  have e: "encodable byte_writer (Invoke 1 2 [3, 4])"
    by (simp add: byte_writer_def)
  have v: "encode byte_writer (Invoke 1 2 [3, 4]) = Inr (INVOKE, [1, 2, 3, 4])"
    by (simp add: encode_def find_TYPE_MAP byte_writer_def new_buffer_def write_bytes_def
        getvalue_def)
  have n: "normalize same (Invoke 1 2 [3, 4]) = Invoke 1 2 [3, 4]"
    by (simp add: same_def)
  from decode_encode_roundtrip[OF byte_codec e] v n
  have "decode byte_reader INVOKE [1, 2, 3, 4] = Some (Inr (Invoke 1 2 [3, 4]))"
    by simp
  with byte_codec e v show ?thesis by simp
qed

end
